theory Spec2Isabelle
  imports Main
begin

section \<open>The relay-message stash: data model\<close>

text \<open>
  The development follows \<^verbatim>\<open>relay_messages.go\<close>. Go strings and byte slices are
  \<^typ>\<open>string\<close> (lists of 8-bit characters), so \<^const>\<open>length\<close> counts bytes as Go's
  \<^verbatim>\<open>len\<close> does.
\<close>

definition MaxMessageSize :: nat where
  "MaxMessageSize = 8 * 1024"

text \<open>
  \<^verbatim>\<open>events.RelayMessage\<close> is declared in the gosparkpost library; the record keeps the
  fields that \<^verbatim>\<open>ParseEvent\<close> and \<^verbatim>\<open>StoreEvent\<close> read.
\<close>

record Content =
  Subject :: string
  Email :: string
  Base64 :: bool

record RelayMessage =
  WebhookID :: string
  From :: string
  To :: string
  Content :: Content

text \<open>
  One row of the table \<^verbatim>\<open>relay_messages\<close> created by \<^verbatim>\<open>SchemaInit\<close>. The column
  \<^verbatim>\<open>created\<close> is filled by the server's clock at insert and is read by no code of the
  repository; it is left out.
\<close>

record MessageRecord =
  message_id :: nat
  webhook_id :: string
  smtp_from :: string
  smtp_to :: string
  subject :: string
  rfc822 :: string
  is_base64 :: bool
  status_id :: int

text \<open>
  The database handle \<^verbatim>\<open>Dbh\<close>. Whether a statement succeeds is decided outside the
  program (connection loss, server errors), so the handle carries the outcomes of the
  statements still to come: each statement takes the first entry of \<open>faults\<close>, and an
  empty list means that the statement runs without error. \<open>statements\<close> counts the
  statements sent to the server.
\<close>

datatype sql_error = EOF | DriverError string

datatype fault =
  NoFault
  | StmtFault string
  | ScanFault nat string
  | IterFault nat string

record DB =
  relay_messages :: "MessageRecord list"
  message_id_seq :: nat
  faults :: "fault list"
  statements :: nat

definition next_fault :: "DB \<Rightarrow> fault \<times> DB" where
  "next_fault db =
     (case faults db of
        [] \<Rightarrow> (NoFault, db\<lparr>statements := Suc (statements db)\<rparr>)
      | f # fs \<Rightarrow> (f, db\<lparr>faults := fs, statements := Suc (statements db)\<rparr>))"

text \<open>
  The \<^verbatim>\<open>INSERT\<close> of \<^verbatim>\<open>StoreEvent\<close>: six columns are supplied, \<^verbatim>\<open>message_id\<close> comes
  from the \<^verbatim>\<open>bigserial\<close> sequence and \<^verbatim>\<open>status_id\<close> takes its default 0. A statement
  that fails leaves the table as it was; every fault makes the \<^verbatim>\<open>INSERT\<close> fail with its
  message.
\<close>

definition Exec_insert ::
  "DB \<Rightarrow> string \<Rightarrow> string \<Rightarrow> string \<Rightarrow> string \<Rightarrow> string \<Rightarrow> bool \<Rightarrow> string option \<times> DB" where
  "Exec_insert db wid sfrom sto subj body b64 =
     (case next_fault db of
        (NoFault, db') \<Rightarrow>
          (None,
           db'\<lparr>relay_messages := relay_messages db' @
                  [\<lparr>message_id = Suc (message_id_seq db'), webhook_id = wid,
                    smtp_from = sfrom, smtp_to = sto, subject = subj, rfc822 = body,
                    is_base64 = b64, status_id = 0\<rparr>],
               message_id_seq := Suc (message_id_seq db')\<rparr>)
      | (StmtFault e, db') \<Rightarrow> (Some e, db')
      | (ScanFault n e, db') \<Rightarrow> (Some e, db')
      | (IterFault n e, db') \<Rightarrow> (Some e, db'))"

subsection \<open>The log and the program state\<close>

text \<open>One constructor for each \<^verbatim>\<open>log.Printf\<close> of the source, with its arguments.\<close>

datatype log_line =
  LogProcessRequestsCalled nat
  | LogProcessRequestsBadJSON string
  | LogProcessRequestsFound nat nat
  | LogParseEventIgnored string
  | LogParseEventBadJSON string
  | LogParseEventNoMsys string
  | LogParseEventNoRelayMessage string
  | LogParseEventMessage string string string
  | LogSummaryCacheHit string
  | LogSummarySelect string
  | LogSummaryScan string
  | LogSummaryErr sql_error
  | LogSummaryJSON string

record state =
  dbh :: DB
  logs :: "log_line list"

definition log_Printf :: "log_line \<Rightarrow> state \<Rightarrow> state" where
  "log_Printf l st = st\<lparr>logs := logs st @ [l]\<rparr>"

record RelayMsgParser =
  Schema :: string
  Domain :: string

datatype error =
  StoreEventSize string nat
  | StoreEventInsert string

section \<open>StoreEvent\<close>

definition StoreEvent :: "RelayMsgParser \<Rightarrow> RelayMessage \<Rightarrow> state \<Rightarrow> error option \<times> state" where
  "StoreEvent p msg st =
     (if length (Email (Content msg)) \<ge> MaxMessageSize
      then (Some (StoreEventSize (From msg) (length (Email (Content msg)))), st)
      else
        (case Exec_insert (dbh st) (WebhookID msg) (From msg) (To msg)
                (Subject (Content msg)) (Email (Content msg)) (Base64 (Content msg)) of
           (Some e, db') \<Rightarrow> (Some (StoreEventInsert e), st\<lparr>dbh := db'\<rparr>)
         | (None, db') \<Rightarrow> (None, st\<lparr>dbh := db'\<rparr>)))"

section \<open>The pattern relayMsg\<close>

text \<open>
  The pattern of \<^verbatim>\<open>relayMsg\<close> is anchored at the start of the text and is a sequence of
  literal characters and \<^verbatim>\<open>\s*\<close>. \<open>match\<close> is the backtracking matcher for such
  sequences (\<^verbatim>\<open>\s*\<close> takes as many characters as it can and gives them back one at a
  time); it returns the length of the match. Go's \<^verbatim>\<open>\s\<close> is the class
  \<^verbatim>\<open>[\t\n\f\r ]\<close>.
\<close>

datatype item = Lit char | StarSpace

definition is_space :: "char \<Rightarrow> bool" where
  "is_space c = (c = CHR 0x09 \<or> c = CHR 0x0A \<or> c = CHR 0x0C \<or> c = CHR 0x0D \<or> c = CHR 0x20)"

fun match :: "item list \<Rightarrow> string \<Rightarrow> nat option" where
  "match [] s = Some 0"
| "match (Lit c # p) [] = None"
| "match (Lit c # p) (x # xs) = (if x = c then map_option Suc (match p xs) else None)"
| "match (StarSpace # p) [] = match p []"
| "match (StarSpace # p) (x # xs) =
     (if is_space x
      then (case match (StarSpace # p) xs of
              Some n \<Rightarrow> Some (Suc n)
            | None \<Rightarrow> match p (x # xs))
      else match p (x # xs))"

definition lits :: "string \<Rightarrow> item list" where
  "lits s = map Lit s"

definition relayMsg :: "item list" where
  \<open>relayMsg =
     [StarSpace, Lit CHR ''{'', StarSpace] @ lits ''"msys"'' @
     [StarSpace, Lit CHR '':'', StarSpace, Lit CHR ''{'', StarSpace] @ lits ''"relay_message"'' @
     [StarSpace, Lit CHR '':'']\<close>

text \<open>\<^verbatim>\<open>FindStringIndex\<close>: the empty slice when nothing matches, else start and end.\<close>

definition FindStringIndex :: "item list \<Rightarrow> string \<Rightarrow> int list" where
  "FindStringIndex re s = (case match re s of None \<Rightarrow> [] | Some n \<Rightarrow> [0, int n])"

section \<open>ParseEvent and ProcessRequests\<close>

text \<open>
  \<^verbatim>\<open>encoding/json\<close> is a library outside the repository; its two decoders are parameters.
  \<open>Unmarshal_events\<close> decodes a payload into \<^verbatim>\<open>[]*json.RawMessage\<close> (an element of the
  array that is \<^verbatim>\<open>null\<close> gives a nil pointer, here \<open>None\<close>); \<open>Unmarshal_blob\<close> decodes one
  element into \<^verbatim>\<open>map[string]map[string]events.RelayMessage\<close>. Both give \<open>None\<close> when
  the decoder reports an error.
\<close>

record json_pkg =
  Unmarshal_events :: "string \<Rightarrow> string option list option"
  Unmarshal_blob :: "string \<Rightarrow> (string \<rightharpoonup> (string \<rightharpoonup> RelayMessage)) option"

definition ParseEvent ::
  "json_pkg \<Rightarrow> RelayMsgParser \<Rightarrow> string option \<Rightarrow> state \<Rightarrow> error option \<times> state" where
  "ParseEvent js p j st =
     (case j of
        None \<Rightarrow> (None, st)
      | Some text \<Rightarrow>
          (case FindStringIndex relayMsg text of
             [] \<Rightarrow> (None, log_Printf (LogParseEventIgnored text) st)
           | i0 # rest \<Rightarrow>
               if i0 < 0 then (None, log_Printf (LogParseEventIgnored text) st)
               else
                 (case Unmarshal_blob js text of
                    None \<Rightarrow> (None, log_Printf (LogParseEventBadJSON text) st)
                  | Some blob \<Rightarrow>
                      (case blob ''msys'' of
                         None \<Rightarrow> (None, log_Printf (LogParseEventNoMsys text) st)
                       | Some msys \<Rightarrow>
                           (case msys ''relay_message'' of
                              None \<Rightarrow> (None, log_Printf (LogParseEventNoRelayMessage text) st)
                            | Some msg \<Rightarrow>
                                (case StoreEvent p msg
                                        (log_Printf
                                           (LogParseEventMessage (From msg) (To msg) (WebhookID msg))
                                           st) of
                                   (Some err, st') \<Rightarrow> (Some err, st')
                                 | (None, st') \<Rightarrow> (None, st')))))))"

text \<open>The inner loop of \<^verbatim>\<open>ProcessRequests\<close>: the first error ends it.\<close>

fun parse_events ::
  "json_pkg \<Rightarrow> RelayMsgParser \<Rightarrow> string option list \<Rightarrow> state \<Rightarrow> error option \<times> state" where
  "parse_events js p [] st = (None, st)"
| "parse_events js p (event # events) st =
     (case ParseEvent js p event st of
        (Some err, st') \<Rightarrow> (Some err, st')
      | (None, st') \<Rightarrow> parse_events js p events st')"

text \<open>
  \<^verbatim>\<open>storage.Request\<close> belongs to the httpdump library; the program reads its field
  \<^verbatim>\<open>Data\<close> only.
\<close>

record Request =
  Data :: string

text \<open>
  The outer loop, from request number \<open>i\<close> on. An error of the inner loop is returned
  from \<^verbatim>\<open>ProcessRequests\<close> itself, so it ends the outer loop too.
\<close>

fun process_from ::
  "json_pkg \<Rightarrow> RelayMsgParser \<Rightarrow> nat \<Rightarrow> Request list \<Rightarrow> state \<Rightarrow> error option \<times> state" where
  "process_from js p i [] st = (None, st)"
| "process_from js p i (req # reqs) st =
     (case Unmarshal_events js (Data req) of
        None \<Rightarrow>
          process_from js p (Suc i) reqs (log_Printf (LogProcessRequestsBadJSON (Data req)) st)
      | Some events \<Rightarrow>
          (case parse_events js p events
                  (log_Printf (LogProcessRequestsFound (length events) i) st) of
             (Some err, st') \<Rightarrow> (Some err, st')
           | (None, st') \<Rightarrow> process_from js p (Suc i) reqs st'))"

definition ProcessRequests ::
  "json_pkg \<Rightarrow> RelayMsgParser \<Rightarrow> Request list \<Rightarrow> state \<Rightarrow> error option \<times> state" where
  "ProcessRequests js p reqs st =
     process_from js p 0 reqs (log_Printf (LogProcessRequestsCalled (length reqs)) st)"

section \<open>The summary handler\<close>

subsection \<open>The cache\<close>

text \<open>
  The cache of \<^verbatim>\<open>patrickmn/go-cache\<close>: each item carries the time (nanoseconds) at which
  it expires, 0 for never. The clock is read by \<^verbatim>\<open>Get\<close> and \<^verbatim>\<open>Set\<close>; its readings
  are arguments here.
\<close>

record Item =
  Object :: string
  Expiration :: int

record cache =
  defaultExpiration :: int
  items :: "string \<rightharpoonup> Item"

definition Second :: int where
  "Second = 1000000000"

definition Millisecond :: int where
  "Millisecond = 1000000"

definition DefaultExpiration :: int where
  "DefaultExpiration = 0"

definition cache_New :: "int \<Rightarrow> int \<Rightarrow> cache" where
  "cache_New de ci = \<lparr>defaultExpiration = de, items = Map.empty\<rparr>"

definition expired :: "int \<Rightarrow> Item \<Rightarrow> bool" where
  "expired now it = (Expiration it > 0 \<and> now > Expiration it)"

definition cache_Get :: "cache \<Rightarrow> int \<Rightarrow> string \<Rightarrow> string option" where
  "cache_Get c now k =
     (case items c k of
        None \<Rightarrow> None
      | Some it \<Rightarrow> if expired now it then None else Some (Object it))"

definition cache_Set :: "cache \<Rightarrow> int \<Rightarrow> string \<Rightarrow> string \<Rightarrow> int \<Rightarrow> cache" where
  "cache_Set c now k x d =
     (let d' = (if d = DefaultExpiration then defaultExpiration c else d);
          e = (if d' > 0 then now + d' else 0)
      in c\<lparr>items := (items c)(k \<mapsto> \<lparr>Object = x, Expiration = e\<rparr>)\<rparr>)"

text \<open>The sweep that the cache runs every 500 ms.\<close>

definition DeleteExpired :: "cache \<Rightarrow> int \<Rightarrow> cache" where
  "DeleteExpired c now =
     c\<lparr>items := (\<lambda>k. case items c k of
                         None \<Rightarrow> None
                       | Some it \<Rightarrow> if expired now it then None else Some it)\<rparr>"

subsection \<open>The aggregate query\<close>

text \<open>
  The \<^verbatim>\<open>SELECT\<close> of the handler: the rows addressed to \<open>localpart@domain\<close>, grouped by
  subject, with the number of distinct senders of each group. SQL leaves the order of
  the groups open; here it is the order of first appearance.
\<close>

definition summary_select :: "MessageRecord list \<Rightarrow> string \<Rightarrow> string \<Rightarrow> (string \<times> int) list" where
  "summary_select tbl localpart domain =
     (let hits = filter (\<lambda>r. smtp_to r = localpart @ ''@'' @ domain) tbl
      in map (\<lambda>s. (s, int (length (remdups (map smtp_from (filter (\<lambda>r. subject r = s) hits))))))
           (remdups (map subject hits)))"

text \<open>
  The cursor \<^verbatim>\<open>sql.Rows\<close>: the rows still to come, each with the result of scanning it
  (\<open>Inl\<close> when \<^verbatim>\<open>Scan\<close> fails), the error that \<^verbatim>\<open>Next\<close> records when they are exhausted
  (\<^verbatim>\<open>io.EOF\<close> at the regular end) and the error recorded so far. \<^verbatim>\<open>Err\<close> reports the
  recorded error, and nil when it is \<^verbatim>\<open>io.EOF\<close>.
\<close>

record Rows =
  pending :: "(string + string \<times> int) list"
  end_err :: sql_error
  lasterr :: "sql_error option"

definition rows_Err :: "Rows \<Rightarrow> sql_error option" where
  "rows_Err r = (case lasterr r of None \<Rightarrow> None | Some EOF \<Rightarrow> None | Some (DriverError e) \<Rightarrow> Some (DriverError e))"

definition Query_summary :: "DB \<Rightarrow> string \<Rightarrow> string \<Rightarrow> (string + Rows) \<times> DB" where
  "Query_summary db localpart domain =
     (case next_fault db of
        (NoFault, db') \<Rightarrow>
          (Inr \<lparr>pending = map Inr (summary_select (relay_messages db') localpart domain),
                end_err = EOF, lasterr = None\<rparr>, db')
      | (StmtFault e, db') \<Rightarrow> (Inl e, db')
      | (ScanFault n e, db') \<Rightarrow>
          (Inr \<lparr>pending = (map Inr (summary_select (relay_messages db') localpart domain))[n := Inl e],
                end_err = EOF, lasterr = None\<rparr>, db')
      | (IterFault n e, db') \<Rightarrow>
          (Inr \<lparr>pending = take n (map Inr (summary_select (relay_messages db') localpart domain)),
                end_err = DriverError e, lasterr = None\<rparr>, db'))"

subsection \<open>The response body\<close>

record SummaryResponse =
  Subject' :: string
  Count :: int

text \<open>
  \<open>res\<close> of the handler is a \<^verbatim>\<open>map[string][]SummaryResponse\<close>, here an association
  list. \<open>append_results\<close> is \<^verbatim>\<open>res["results"] = append(res["results"], s)\<close>: a key
  that is missing reads as the nil slice.
\<close>

type_synonym results = "(string \<times> SummaryResponse list) list"

definition append_results :: "results \<Rightarrow> SummaryResponse \<Rightarrow> results" where
  "append_results res s =
     (case map_of res ''results'' of
        None \<Rightarrow> res @ [(''results'', [s])]
      | Some xs \<Rightarrow> map (\<lambda>(k, v). if k = ''results'' then (k, xs @ [s]) else (k, v)) res)"

text \<open>The loop over \<^verbatim>\<open>rows.Next()\<close>, on the rows still to come.\<close>

fun scan_loop ::
  "(string + string \<times> int) list \<Rightarrow> Rows \<Rightarrow> results \<Rightarrow> string + (results \<times> Rows)" where
  "scan_loop [] r res = Inr (res, r\<lparr>pending := [], lasterr := Some (end_err r)\<rparr>)"
| "scan_loop (x # xs) r res =
     (let r' = r\<lparr>pending := xs\<rparr> in
      if rows_Err r' = Some EOF then Inr (res, r')
      else
        (case x of
           Inl err \<Rightarrow> Inl err
         | Inr (subj, cnt) \<Rightarrow> scan_loop xs r' (append_results res \<lparr>Subject' = subj, Count = cnt\<rparr>)))"

text \<open>
  \<^verbatim>\<open>json.Marshal\<close> of \<open>res\<close>. An empty map is the object without members, a slice is an
  array, and a \<^verbatim>\<open>SummaryResponse\<close> is an object with the members of its field tags. The
  encoding of a string value depends on the version of the library and is a parameter;
  the keys of \<open>res\<close> are written between quotes (the program's only key has no
  character that the encoder escapes). Go writes the keys of a map in sorted order; the
  list holds one key at most. \<^verbatim>\<open>Marshal\<close> has no error for this type.
\<close>

definition digit :: "nat \<Rightarrow> char" where
  "digit d = ''0123456789'' ! d"

fun show_nat :: "nat \<Rightarrow> string" where
  "show_nat n = (if n < 10 then [digit n] else show_nat (n div 10) @ [digit (n mod 10)])"

declare show_nat.simps [simp del]

definition show_int :: "int \<Rightarrow> string" where
  "show_int i = (if i < 0 then ''-'' @ show_nat (nat (- i)) else show_nat (nat i))"

fun join :: "string \<Rightarrow> string list \<Rightarrow> string" where
  "join sep [] = []"
| "join sep [x] = x"
| "join sep (x # y # ys) = x @ sep @ join sep (y # ys)"

definition marshal_SummaryResponse :: "(string \<Rightarrow> string) \<Rightarrow> SummaryResponse \<Rightarrow> string" where
  \<open>marshal_SummaryResponse enc s =
     ''{"subject":'' @ enc (Subject' s) @ '',"count":'' @ show_int (Count s) @ ''}''\<close>

definition marshal_slice :: "(string \<Rightarrow> string) \<Rightarrow> SummaryResponse list \<Rightarrow> string" where
  "marshal_slice enc xs = ''['' @ join '','' (map (marshal_SummaryResponse enc) xs) @ '']''"

definition json_Marshal :: "(string \<Rightarrow> string) \<Rightarrow> results \<Rightarrow> string + string" where
  \<open>json_Marshal enc res =
     Inr (''{'' @ join '','' (map (\<lambda>(k, v). ''"'' @ k @ ''":'' @ marshal_slice enc v) res) @ ''}'')\<close>

subsection \<open>The handler\<close>

record response =
  status :: nat
  body :: string

text \<open>
  \<^verbatim>\<open>w.Write\<close> on a fresh writer answers with status 200; \<^verbatim>\<open>http.Error\<close> writes the
  message and a newline with the given status.
\<close>

definition Write :: "string \<Rightarrow> response" where
  "Write b = \<lparr>status = 200, body = b\<rparr>"

definition StatusInternalServerError :: nat where
  "StatusInternalServerError = 500"

definition http_Error :: "string \<Rightarrow> nat \<Rightarrow> response" where
  "http_Error msg code = \<lparr>status = code, body = msg @ [CHR 0x0A]\<rparr>"

text \<open>\<^verbatim>\<open>SummaryHandler\<close> builds the cache once; the function it returns is \<open>serve\<close>.\<close>

definition SummaryHandler_cache :: cache where
  "SummaryHandler_cache = cache_New (1 * Second) (500 * Millisecond)"

text \<open>
  One request for \<open>localpart\<close>. \<open>t_get\<close> and \<open>t_set\<close> are the clock's readings in
  \<^verbatim>\<open>c.Get\<close> and \<^verbatim>\<open>c.Set\<close>; \<open>enc\<close> is the library's encoder of string values.
\<close>

definition serve ::
  "(string \<Rightarrow> string) \<Rightarrow> RelayMsgParser \<Rightarrow> int \<Rightarrow> int \<Rightarrow> string \<Rightarrow> cache \<times> state
     \<Rightarrow> response \<times> cache \<times> state" where
  "serve enc p t_get t_set localpart cs =
     (case cs of (c, st) \<Rightarrow>
       (case cache_Get c t_get localpart of
          Some jsonBytes \<Rightarrow> (Write jsonBytes, c, log_Printf (LogSummaryCacheHit localpart) st)
        | None \<Rightarrow>
            (case Query_summary (dbh st) localpart (Domain p) of
               (Inl err, db') \<Rightarrow>
                 (http_Error ''Database error'' StatusInternalServerError, c,
                  log_Printf (LogSummarySelect err) (st\<lparr>dbh := db'\<rparr>))
             | (Inr rows, db') \<Rightarrow>
                 (case scan_loop (pending rows) rows [] of
                    Inl err \<Rightarrow>
                      (http_Error ''Database error'' StatusInternalServerError, c,
                       log_Printf (LogSummaryScan err) (st\<lparr>dbh := db'\<rparr>))
                  | Inr (res, rows') \<Rightarrow>
                      (case rows_Err rows' of
                         Some err \<Rightarrow>
                           (http_Error ''Database error'' StatusInternalServerError, c,
                            log_Printf (LogSummaryErr err) (st\<lparr>dbh := db'\<rparr>))
                       | None \<Rightarrow>
                           (case json_Marshal enc res of
                              Inl err \<Rightarrow>
                                (http_Error ''Encoding error'' StatusInternalServerError, c,
                                 log_Printf (LogSummaryJSON err) (st\<lparr>dbh := db'\<rparr>))
                            | Inr jsonBytes \<Rightarrow>
                                (Write jsonBytes,
                                 cache_Set c t_set localpart jsonBytes DefaultExpiration,
                                 st\<lparr>dbh := db'\<rparr>)))))))"

section \<open>Notions of the specification\<close>

text \<open>
  The shape that the specification gives for a relay-message element, in its own words:
  the text begins, after optional whitespace, with an object whose first key is the
  literal \<^verbatim>\<open>"msys"\<close>, and the value of that key begins, again after optional
  whitespace, with an object whose first key is the literal \<^verbatim>\<open>"relay_message"\<close>.
  \<open>opens_with_key k s rest\<close>: the text \<open>s\<close> opens an object with first key \<open>k\<close>, and
  \<open>rest\<close> is what follows the colon.
\<close>

definition spaces :: "string \<Rightarrow> bool" where
  "spaces w = list_all is_space w"

definition opens_with_key :: "string \<Rightarrow> string \<Rightarrow> string \<Rightarrow> bool" where
  \<open>opens_with_key k s rest =
     (\<exists>w1 w2 w3. spaces w1 \<and> spaces w2 \<and> spaces w3 \<and>
        s = w1 @ ''{'' @ w2 @ ''"'' @ k @ ''"'' @ w3 @ '':'' @ rest)\<close>

definition relay_shape :: "string \<Rightarrow> bool" where
  "relay_shape s =
     (\<exists>inner rest. opens_with_key ''msys'' s inner \<and> opens_with_key ''relay_message'' inner rest)"

text \<open>The pattern of one such opening; \<open>relayMsg\<close> is two of them in a row.\<close>

definition key_pattern :: "string \<Rightarrow> item list" where
  \<open>key_pattern k =
     [StarSpace, Lit CHR ''{'', StarSpace] @ lits (''"'' @ k @ ''"'') @ [StarSpace, Lit CHR '':'']\<close>

text \<open>The message of a fault, as the error of a refused statement carries it.\<close>

definition fault_message :: "fault \<Rightarrow> string" where
  "fault_message f =
     (case f of NoFault \<Rightarrow> [] | StmtFault e \<Rightarrow> e | ScanFault n e \<Rightarrow> e | IterFault n e \<Rightarrow> e)"

text \<open>The invariant of the table: no stored body reaches the size limit.\<close>

definition all_small :: "DB \<Rightarrow> bool" where
  "all_small db = list_all (\<lambda>r. length (rfc822 r) < MaxMessageSize) (relay_messages db)"

text \<open>An element of the array that is no relay message: \<^verbatim>\<open>null\<close>, or a text without the shape.\<close>

definition no_relay_element :: "string option \<Rightarrow> bool" where
  "no_relay_element e = (case e of None \<Rightarrow> True | Some elem \<Rightarrow> \<not> relay_shape elem)"

text \<open>
  A lookup fails when the query returns an error, when the scan of one of the rows of
  the cursor fails, or when the iteration ends with an error of the driver. This is read
  off what the driver hands to the handler, before the handler does anything with it.
\<close>

definition lookup_fails :: "RelayMsgParser \<Rightarrow> string \<Rightarrow> state \<Rightarrow> bool" where
  "lookup_fails p localpart st =
     (case fst (Query_summary (dbh st) localpart (Domain p)) of
        Inl err \<Rightarrow> True
      | Inr rows \<Rightarrow> list_ex isl (pending rows) \<or> end_err rows \<noteq> EOF)"

subsection \<open>Example inputs\<close>

definition example_msg :: RelayMessage where
  "example_msg = \<lparr>WebhookID = ''w1'', From = ''a@x.com'', To = ''bob@y.com'',
           Content = \<lparr>Subject = ''Hi'', Email = ''hello'', Base64 = False\<rparr>\<rparr>"

definition empty_db :: DB where
  "empty_db = \<lparr>relay_messages = [], message_id_seq = 0, faults = [], statements = 0\<rparr>"

definition empty_state :: state where
  "empty_state = \<lparr>dbh = empty_db, logs = []\<rparr>"

definition example_parser :: RelayMsgParser where
  "example_parser = \<lparr>Schema = ''request_dump'', Domain = ''y.com''\<rparr>"

text \<open>
  Example payloads, with what \<^verbatim>\<open>json.Unmarshal\<close> gives for them. \<open>elem_reordered\<close> holds a
  relay message under \<^verbatim>\<open>msys\<close>, after another key; \<open>req_bad\<close> is an object, not an array.
\<close>

definition big_msg :: RelayMessage where
  "big_msg = \<lparr>WebhookID = ''w2'', From = ''c@x.com'', To = ''bob@y.com'',
       Content = \<lparr>Subject = ''Big'', Email = replicate 8192 CHR ''a'', Base64 = False\<rparr>\<rparr>"

definition elem_small :: string where
  \<open>elem_small = ''{"msys":{"relay_message":{"webhook_id":"w1","msg_from":"a@x.com","rcpt_to":"bob@y.com","content":{"subject":"Hi","email_rfc822":"hello"}}}}''\<close>

definition elem_big :: string where
  \<open>elem_big = ''{"msys":{"relay_message":{"content":{"subject":"Big","email_rfc822":"'' @
      replicate 8192 CHR ''a'' @ ''"},"webhook_id":"w2","msg_from":"c@x.com","rcpt_to":"bob@y.com"}}}''\<close>

definition elem_other :: string where
  \<open>elem_other = ''{"other_event":{}}''\<close>

definition elem_reordered :: string where
  \<open>elem_reordered = ''{"x":{},"msys":{"relay_message":{"webhook_id":"w1","msg_from":"a@x.com","rcpt_to":"bob@y.com","content":{"subject":"Hi","email_rfc822":"hello"}}}}''\<close>

definition payload :: "string list \<Rightarrow> string" where
  "payload elems = ''['' @ join '','' elems @ '']''"

definition example_json :: json_pkg where
  \<open>example_json =
     \<lparr>Unmarshal_events = map_of
        [(payload [elem_small], [Some elem_small]),
         (payload [elem_big], [Some elem_big]),
         (payload [elem_small, elem_big, elem_small],
            [Some elem_small, Some elem_big, Some elem_small]),
         (payload [elem_other, ''null''], [Some elem_other, None]),
         (payload [elem_reordered], [Some elem_reordered])],
      Unmarshal_blob = map_of
        [(elem_small, [''msys'' \<mapsto> [''relay_message'' \<mapsto> example_msg]]),
         (elem_big, [''msys'' \<mapsto> [''relay_message'' \<mapsto> big_msg]]),
         (elem_other, [''other_event'' \<mapsto> Map.empty]),
         (elem_reordered, [''x'' \<mapsto> Map.empty, ''msys'' \<mapsto> [''relay_message'' \<mapsto> example_msg]])]\<rparr>\<close>

definition req_small :: Request where "req_small = \<lparr>Data = payload [elem_small]\<rparr>"

definition req_big :: Request where "req_big = \<lparr>Data = payload [elem_big]\<rparr>"

definition req_mixed :: Request where
  "req_mixed = \<lparr>Data = payload [elem_small, elem_big, elem_small]\<rparr>"

definition req_other :: Request where "req_other = \<lparr>Data = payload [elem_other, ''null'']\<rparr>"

definition req_bad :: Request where \<open>req_bad = \<lparr>Data = ''{"msys":1}''\<rparr>\<close>

text \<open>
  An encoder of string values for the examples (quotes, no escapes), and a database that
  holds one message to \<^verbatim>\<open>bob@y.com\<close>.
\<close>

definition example_enc :: "string \<Rightarrow> string" where
  \<open>example_enc s = ''"'' @ s @ ''"''\<close>

definition bob_db :: DB where
  "bob_db = \<lparr>relay_messages =
       [\<lparr>message_id = 1, webhook_id = ''w1'', smtp_from = ''a@x.com'', smtp_to = ''bob@y.com'',
         subject = ''Hi'', rfc822 = ''hello'', is_base64 = False, status_id = 0\<rparr>],
     message_id_seq = 1, faults = [], statements = 1\<rparr>"

definition bob_state :: state where
  "bob_state = \<lparr>dbh = bob_db, logs = []\<rparr>"

text \<open>A database with two subjects for \<^verbatim>\<open>bob@y.com\<close>, so that the cursor has two rows.\<close>

definition two_db :: DB where
  "two_db = \<lparr>relay_messages =
       [\<lparr>message_id = 1, webhook_id = ''w1'', smtp_from = ''a@x.com'', smtp_to = ''bob@y.com'',
         subject = ''Hi'', rfc822 = ''hello'', is_base64 = False, status_id = 0\<rparr>,
        \<lparr>message_id = 2, webhook_id = ''w3'', smtp_from = ''d@x.com'', smtp_to = ''bob@y.com'',
         subject = ''Yo'', rfc822 = ''again'', is_base64 = False, status_id = 0\<rparr>],
     message_id_seq = 2, faults = [], statements = 2\<rparr>"

definition two_state :: "fault \<Rightarrow> state" where
  "two_state f = \<lparr>dbh = two_db\<lparr>faults := [f]\<rparr>, logs = []\<rparr>"

section \<open>The matcher and the shape of the specification\<close>

lemma match_star_weaken: "match p s \<noteq> None \<Longrightarrow> match (StarSpace # p) s \<noteq> None"
  by (cases s) (auto split: option.splits)

lemma match_star_spaces:
  "spaces u \<Longrightarrow> match (StarSpace # p) s \<noteq> None \<Longrightarrow> match (StarSpace # p) (u @ s) \<noteq> None"
  by (induction u) (auto simp: spaces_def split: option.splits)

lemma match_star_split:
  "match (StarSpace # p) s \<noteq> None \<Longrightarrow> \<exists>u t. spaces u \<and> s = u @ t \<and> match p t \<noteq> None"
proof (induction s)
  case Nil
  then have "spaces [] \<and> [] = [] @ [] \<and> match p [] \<noteq> None" by (simp add: spaces_def)
  then show ?case by (intro exI)
next
  case (Cons x xs)
  show ?case
  proof (cases "is_space x \<and> match (StarSpace # p) xs \<noteq> None")
    case True
    then have "\<exists>u t. spaces u \<and> xs = u @ t \<and> match p t \<noteq> None" using Cons.IH by simp
    then obtain u t where ut: "spaces u" "xs = u @ t" "match p t \<noteq> None"
      by (elim exE conjE)
    with True have "spaces (x # u) \<and> x # xs = (x # u) @ t \<and> match p t \<noteq> None"
      by (simp add: spaces_def)
    then show ?thesis by (intro exI)
  next
    case False
    with Cons.prems have "match p (x # xs) \<noteq> None" by (auto split: if_splits option.splits)
    then have "spaces [] \<and> x # xs = [] @ (x # xs) \<and> match p (x # xs) \<noteq> None"
      by (simp add: spaces_def)
    then show ?thesis by (intro exI)
  qed
qed

lemma match_Lit_split:
  "match (Lit c # p) s \<noteq> None \<Longrightarrow> \<exists>t. s = c # t \<and> match p t \<noteq> None"
  by (cases s) (auto split: if_splits)

lemma match_lits_split:
  "match (lits l @ p) s \<noteq> None \<Longrightarrow> \<exists>t. s = l @ t \<and> match p t \<noteq> None"
proof (induction l arbitrary: s)
  case Nil
  then show ?case by (simp add: lits_def)
next
  case (Cons c l)
  from Cons.prems have "match (Lit c # lits l @ p) s \<noteq> None" by (simp add: lits_def)
  then have "\<exists>t. s = c # t \<and> match (lits l @ p) t \<noteq> None" by (rule match_Lit_split)
  then obtain t where t: "s = c # t" "match (lits l @ p) t \<noteq> None" by (elim exE conjE)
  from Cons.IH [OF t(2)] obtain t' where t': "t = l @ t'" "match p t' \<noteq> None"
    by (elim exE conjE)
  from t(1) t' have "s = (c # l) @ t' \<and> match p t' \<noteq> None" by simp
  then show ?case by (intro exI)
qed

lemma match_lits_intro:
  "match p t \<noteq> None \<Longrightarrow> match (lits l @ p) (l @ t) \<noteq> None"
  by (induction l) (simp_all add: lits_def)

lemma key_pattern_unfold:
  \<open>key_pattern k @ q =
     StarSpace # Lit CHR ''{'' # StarSpace # lits (''"'' @ k @ ''"'') @ StarSpace # Lit CHR '':'' # q\<close>
  by (simp add: key_pattern_def)

lemma match_key_pattern_intro:
  assumes "opens_with_key k s v" and "match q v \<noteq> None"
  shows "match (key_pattern k @ q) s \<noteq> None"
proof -
  from assms(1) obtain w1 w2 w3 where sp: "spaces w1" "spaces w2" "spaces w3"
    and s: \<open>s = w1 @ ''{'' @ w2 @ ''"'' @ k @ ''"'' @ w3 @ '':'' @ v\<close>
    unfolding opens_with_key_def by (elim exE conjE)
  have 1: "match (Lit CHR '':'' # q) (CHR '':'' # v) \<noteq> None"
    using assms(2) by simp
  have 2: "match (StarSpace # Lit CHR '':'' # q) (w3 @ CHR '':'' # v) \<noteq> None"
    using match_star_spaces [OF sp(3) match_star_weaken [OF 1]] .
  have 3: \<open>match (lits (''"'' @ k @ ''"'') @ StarSpace # Lit CHR '':'' # q)
             ((''"'' @ k @ ''"'') @ w3 @ CHR '':'' # v) \<noteq> None\<close>
    using 2 by (rule match_lits_intro)
  have 4: \<open>match (StarSpace # lits (''"'' @ k @ ''"'') @ StarSpace # Lit CHR '':'' # q)
             (w2 @ (''"'' @ k @ ''"'') @ w3 @ CHR '':'' # v) \<noteq> None\<close>
    using match_star_spaces [OF sp(2) match_star_weaken [OF 3]] .
  have 5: \<open>match (Lit CHR ''{'' # StarSpace # lits (''"'' @ k @ ''"'') @ StarSpace # Lit CHR '':'' # q)
             (CHR ''{'' # w2 @ (''"'' @ k @ ''"'') @ w3 @ CHR '':'' # v) \<noteq> None\<close>
    using 4 by simp
  have 6: \<open>match (key_pattern k @ q)
             (w1 @ CHR ''{'' # w2 @ (''"'' @ k @ ''"'') @ w3 @ CHR '':'' # v) \<noteq> None\<close>
    unfolding key_pattern_unfold
    using match_star_spaces [OF sp(1) match_star_weaken [OF 5]] .
  have \<open>s = w1 @ CHR ''{'' # w2 @ (''"'' @ k @ ''"'') @ w3 @ CHR '':'' # v\<close>
    using s by simp
  with 6 show ?thesis by simp
qed

lemma match_key_pattern_elim:
  assumes "match (key_pattern k @ q) s \<noteq> None"
  shows "\<exists>v. opens_with_key k s v \<and> match q v \<noteq> None"
proof -
  from assms have
    \<open>match (StarSpace # Lit CHR ''{'' # StarSpace # lits (''"'' @ k @ ''"'') @
        StarSpace # Lit CHR '':'' # q) s \<noteq> None\<close>
    unfolding key_pattern_unfold .
  from match_star_split [OF this] obtain w1 t1 where 1: "spaces w1" "s = w1 @ t1"
    \<open>match (Lit CHR ''{'' # StarSpace # lits (''"'' @ k @ ''"'') @ StarSpace # Lit CHR '':'' # q) t1 \<noteq> None\<close>
    by (elim exE conjE)
  from match_Lit_split [OF 1(3)] obtain t2 where 2: "t1 = CHR ''{'' # t2"
    \<open>match (StarSpace # lits (''"'' @ k @ ''"'') @ StarSpace # Lit CHR '':'' # q) t2 \<noteq> None\<close>
    by (elim exE conjE)
  from match_star_split [OF 2(2)] obtain w2 t3 where 3: "spaces w2" "t2 = w2 @ t3"
    \<open>match (lits (''"'' @ k @ ''"'') @ StarSpace # Lit CHR '':'' # q) t3 \<noteq> None\<close>
    by (elim exE conjE)
  from match_lits_split [OF 3(3)] obtain t4 where 4: \<open>t3 = (''"'' @ k @ ''"'') @ t4\<close>
    "match (StarSpace # Lit CHR '':'' # q) t4 \<noteq> None"
    by (elim exE conjE)
  from match_star_split [OF 4(2)] obtain w3 t5 where 5: "spaces w3" "t4 = w3 @ t5"
    "match (Lit CHR '':'' # q) t5 \<noteq> None"
    by (elim exE conjE)
  from match_Lit_split [OF 5(3)] obtain v where 6: "t5 = CHR '':'' # v" "match q v \<noteq> None"
    by (elim exE conjE)
  have \<open>s = w1 @ ''{'' @ w2 @ ''"'' @ k @ ''"'' @ w3 @ '':'' @ v\<close>
    using 1(2) 2(1) 3(2) 4(1) 5(2) 6(1) by simp
  with 1(1) 3(1) 5(1) have
    \<open>spaces w1 \<and> spaces w2 \<and> spaces w3 \<and>
       s = w1 @ ''{'' @ w2 @ ''"'' @ k @ ''"'' @ w3 @ '':'' @ v\<close>
    by simp
  then have "opens_with_key k s v"
    unfolding opens_with_key_def by (intro exI)
  with 6(2) have "opens_with_key k s v \<and> match q v \<noteq> None" by simp
  then show ?thesis by (rule exI)
qed

lemma relayMsg_key_patterns: "relayMsg = key_pattern ''msys'' @ key_pattern ''relay_message'' @ []"
  by (simp add: relayMsg_def key_pattern_def lits_def)

lemma relayMsg_shape: "match relayMsg s \<noteq> None \<longleftrightarrow> relay_shape s"
proof
  assume "match relayMsg s \<noteq> None"
  then have "match (key_pattern ''msys'' @ key_pattern ''relay_message'' @ []) s \<noteq> None"
    unfolding relayMsg_key_patterns .
  from match_key_pattern_elim [OF this] obtain v where v: "opens_with_key ''msys'' s v"
    "match (key_pattern ''relay_message'' @ []) v \<noteq> None"
    by (elim exE conjE)
  from match_key_pattern_elim [OF v(2)] obtain r where "opens_with_key ''relay_message'' v r"
    by (elim exE conjE)
  with v(1) have "opens_with_key ''msys'' s v \<and> opens_with_key ''relay_message'' v r" by simp
  then show "relay_shape s" unfolding relay_shape_def by (intro exI)
next
  assume "relay_shape s"
  then obtain v r where v: "opens_with_key ''msys'' s v" "opens_with_key ''relay_message'' v r"
    unfolding relay_shape_def by (elim exE conjE)
  have "match [] r \<noteq> None" by simp
  from match_key_pattern_intro [OF v(2) this]
  have "match (key_pattern ''relay_message'' @ []) v \<noteq> None" .
  from match_key_pattern_intro [OF v(1) this]
  show "match relayMsg s \<noteq> None" unfolding relayMsg_key_patterns .
qed

section \<open>StoreEvent: messages below the size limit\<close>

lemma Exec_insert_cases:
  "Exec_insert db wid sfrom sto subj bdy b64 =
     (if fst (next_fault db) = NoFault
      then (None, (snd (next_fault db))\<lparr>relay_messages := relay_messages db @
                  [\<lparr>message_id = Suc (message_id_seq db), webhook_id = wid,
                    smtp_from = sfrom, smtp_to = sto, subject = subj, rfc822 = bdy,
                    is_base64 = b64, status_id = 0\<rparr>],
               message_id_seq := Suc (message_id_seq db)\<rparr>)
      else (Some (case fst (next_fault db) of
                    StmtFault e \<Rightarrow> e | ScanFault n e \<Rightarrow> e | IterFault n e \<Rightarrow> e | NoFault \<Rightarrow> []),
            snd (next_fault db)))"
  by (simp add: Exec_insert_def next_fault_def split: list.splits fault.splits)

lemma next_fault_table: "relay_messages (snd (next_fault db)) = relay_messages db"
  by (simp add: next_fault_def split: list.splits)

text \<open>
  Claim C3, as amended: for every relay-message event whose body is strictly shorter than
  8192 bytes and whose \<^verbatim>\<open>INSERT\<close> the database executes without error, \<open>StoreEvent\<close>
  succeeds and appends exactly one row, whose webhook_id, smtp_from, smtp_to, subject,
  rfc822 and is_base64 equal the corresponding fields of the event.
\<close>

theorem StoreEvent_small:
  assumes "length (Email (Content msg)) < MaxMessageSize"
    and "fst (next_fault (dbh st)) = NoFault"
  shows "fst (StoreEvent p msg st) = None \<and>
         relay_messages (dbh (snd (StoreEvent p msg st))) =
           relay_messages (dbh st) @
             [\<lparr>message_id = Suc (message_id_seq (dbh st)), webhook_id = WebhookID msg,
               smtp_from = From msg, smtp_to = To msg, subject = Subject (Content msg),
               rfc822 = Email (Content msg), is_base64 = Base64 (Content msg), status_id = 0\<rparr>]"
  using assms by (simp add: StoreEvent_def Exec_insert_cases)

theorem StoreEvent_small_witness:
  "length (Email (Content example_msg)) < MaxMessageSize \<and>
   fst (next_fault (dbh empty_state)) = NoFault \<and>
   fst (StoreEvent example_parser example_msg empty_state) = None \<and>
   relay_messages (dbh (snd (StoreEvent example_parser example_msg empty_state))) =
     [\<lparr>message_id = 1, webhook_id = ''w1'', smtp_from = ''a@x.com'', smtp_to = ''bob@y.com'',
       subject = ''Hi'', rfc822 = ''hello'', is_base64 = False, status_id = 0\<rparr>]"
proof -
  have a: "length (Email (Content example_msg)) < MaxMessageSize"
    by (simp add: example_msg_def MaxMessageSize_def)
  have b: "fst (next_fault (dbh empty_state)) = NoFault"
    by (simp add: next_fault_def empty_state_def empty_db_def)
  from StoreEvent_small [OF a b, of example_parser] a b show ?thesis
    by (simp add: example_msg_def empty_state_def empty_db_def)
qed

text \<open>
  Claim C3 as it is written fails when the database refuses the statement: the body has
  5 bytes, and \<open>StoreEvent\<close> returns the error of the \<^verbatim>\<open>INSERT\<close> and stores nothing.
\<close>

theorem StoreEvent_small_counterexample:
  "length (Email (Content example_msg)) < MaxMessageSize \<and>
   StoreEvent example_parser example_msg
      (empty_state\<lparr>dbh := empty_db\<lparr>faults := [StmtFault ''connection refused'']\<rparr>\<rparr>) =
     (Some (StoreEventInsert ''connection refused''),
      empty_state\<lparr>dbh := empty_db\<lparr>faults := [], statements := 1\<rparr>\<rparr>) \<and>
   relay_messages (dbh (snd (StoreEvent example_parser example_msg
      (empty_state\<lparr>dbh := empty_db\<lparr>faults := [StmtFault ''connection refused'']\<rparr>\<rparr>)))) = []"
  by (simp add: StoreEvent_def Exec_insert_def next_fault_def example_msg_def empty_state_def
      empty_db_def MaxMessageSize_def)

section \<open>The example inputs\<close>

lemma match_small: "match relayMsg elem_small \<noteq> None"
  by (simp add: relayMsg_def lits_def elem_small_def is_space_def)

lemma match_big: "match relayMsg elem_big \<noteq> None"
  by (simp add: relayMsg_def lits_def elem_big_def is_space_def)

lemma match_other: "match relayMsg elem_other = None"
  by (simp add: relayMsg_def lits_def elem_other_def is_space_def)

lemma match_reordered: "match relayMsg elem_reordered = None"
  by (simp add: relayMsg_def lits_def elem_reordered_def is_space_def)

lemma events_small: "Unmarshal_events example_json (Data req_small) = Some [Some elem_small]"
  by (simp add: example_json_def req_small_def payload_def)

lemma events_big: "Unmarshal_events example_json (Data req_big) = Some [Some elem_big]"
  by (simp add: example_json_def req_big_def payload_def elem_small_def elem_big_def)

lemma events_mixed:
  "Unmarshal_events example_json (Data req_mixed) =
     Some [Some elem_small, Some elem_big, Some elem_small]"
  by (simp add: example_json_def req_mixed_def payload_def elem_small_def elem_big_def)

lemma events_other:
  "Unmarshal_events example_json (Data req_other) = Some [Some elem_other, None]"
  by (simp add: example_json_def req_other_def payload_def elem_small_def elem_big_def
      elem_other_def elem_reordered_def)

lemma events_bad: "Unmarshal_events example_json (Data req_bad) = None"
  by (simp add: example_json_def req_bad_def payload_def elem_small_def elem_big_def
      elem_other_def elem_reordered_def)

lemma blob_small:
  "Unmarshal_blob example_json elem_small = Some [''msys'' \<mapsto> [''relay_message'' \<mapsto> example_msg]]"
  by (simp add: example_json_def)

lemma blob_big:
  "Unmarshal_blob example_json elem_big = Some [''msys'' \<mapsto> [''relay_message'' \<mapsto> big_msg]]"
  by (simp add: example_json_def elem_small_def elem_big_def)

lemma blob_reordered:
  "Unmarshal_blob example_json elem_reordered =
     Some [''x'' \<mapsto> Map.empty, ''msys'' \<mapsto> [''relay_message'' \<mapsto> example_msg]]"
  by (simp add: example_json_def elem_small_def elem_big_def elem_other_def elem_reordered_def)

section \<open>The size limit\<close>

lemma log_Printf_dbh: "dbh (log_Printf l st) = dbh st"
  by (simp add: log_Printf_def)

lemma StoreEvent_all_small:
  "all_small (dbh st) \<Longrightarrow> all_small (dbh (snd (StoreEvent p msg st)))"
  by (simp add: StoreEvent_def Exec_insert_cases all_small_def next_fault_table
      split: prod.splits option.splits)

lemma ParseEvent_all_small:
  "all_small (dbh st) \<Longrightarrow> all_small (dbh (snd (ParseEvent js p j st)))"
proof -
  assume a: "all_small (dbh st)"
  have b: "\<And>msg l. all_small (dbh (snd (StoreEvent p msg (log_Printf l st))))"
    using a by (simp add: StoreEvent_all_small log_Printf_dbh)
  have c: "\<And>msg l e st'. StoreEvent p msg (log_Printf l st) = (e, st') \<Longrightarrow> all_small (dbh st')"
    using b by (metis snd_conv)
  show ?thesis
    using a c by (auto simp: ParseEvent_def log_Printf_dbh split: option.splits list.splits prod.splits)
qed

lemma parse_events_all_small:
  "all_small (dbh st) \<Longrightarrow> all_small (dbh (snd (parse_events js p events st)))"
proof (induction events arbitrary: st)
  case Nil
  then show ?case by simp
next
  case (Cons e events)
  obtain r st' where r: "ParseEvent js p e st = (r, st')" by (cases "ParseEvent js p e st")
  with ParseEvent_all_small [OF Cons.prems, of js p e] have s: "all_small (dbh st')" by simp
  show ?case
  proof (cases r)
    case None
    with r Cons.IH [OF s] show ?thesis by simp
  next
    case (Some err)
    with r s show ?thesis by simp
  qed
qed

lemma process_from_all_small:
  "all_small (dbh st) \<Longrightarrow> all_small (dbh (snd (process_from js p i reqs st)))"
proof (induction reqs arbitrary: st i)
  case Nil
  then show ?case by simp
next
  case (Cons req reqs)
  show ?case
  proof (cases "Unmarshal_events js (Data req)")
    case None
    have "all_small (dbh (log_Printf (LogProcessRequestsBadJSON (Data req)) st))"
      using Cons.prems by (simp add: log_Printf_dbh)
    from Cons.IH [OF this] None show ?thesis by simp
  next
    case (Some events)
    let ?st1 = "log_Printf (LogProcessRequestsFound (length events) i) st"
    have a: "all_small (dbh ?st1)" using Cons.prems by (simp add: log_Printf_dbh)
    obtain r st' where r: "parse_events js p events ?st1 = (r, st')"
      by (cases "parse_events js p events ?st1")
    with parse_events_all_small [OF a, of js p events] have s: "all_small (dbh st')" by simp
    show ?thesis
    proof (cases r)
      case None
      with r Some Cons.IH [OF s] show ?thesis by simp
    next
      case (Some err)
      with r \<open>Unmarshal_events js (Data req) = Some events\<close> s show ?thesis by simp
    qed
  qed
qed

lemma ProcessRequests_all_small:
  "all_small (dbh st) \<Longrightarrow> all_small (dbh (snd (ProcessRequests js p reqs st)))"
  unfolding ProcessRequests_def
  by (rule process_from_all_small) (simp add: log_Printf_dbh)

text \<open>
  Claim C4: for every relay-message event whose body has 8192 bytes or more, \<open>StoreEvent\<close>
  inserts nothing (the state is unchanged) and returns the size error; and every stored
  row keeps \<open>length (rfc822 r) < 8192\<close>: the invariant \<open>all_small\<close> is preserved by
  \<open>StoreEvent\<close> and by a whole run of \<open>ProcessRequests\<close>.
\<close>

theorem StoreEvent_too_large:
  "(MaxMessageSize \<le> length (Email (Content msg)) \<longrightarrow>
      StoreEvent p msg st =
        (Some (StoreEventSize (From msg) (length (Email (Content msg)))), st)) \<and>
   (all_small (dbh st) \<longrightarrow>
      all_small (dbh (snd (StoreEvent p msg st))) \<and>
      all_small (dbh (snd (ProcessRequests js p reqs st))))"
proof (intro conjI impI)
  assume "MaxMessageSize \<le> length (Email (Content msg))"
  then show "StoreEvent p msg st =
      (Some (StoreEventSize (From msg) (length (Email (Content msg)))), st)"
    by (simp add: StoreEvent_def)
next
  assume "all_small (dbh st)"
  then show "all_small (dbh (snd (StoreEvent p msg st)))" by (rule StoreEvent_all_small)
next
  assume "all_small (dbh st)"
  then show "all_small (dbh (snd (ProcessRequests js p reqs st)))"
    by (rule ProcessRequests_all_small)
qed

lemma ParseEvent_small:
  "ParseEvent example_json example_parser (Some elem_small) st =
     StoreEvent example_parser example_msg
       (log_Printf (LogParseEventMessage ''a@x.com'' ''bob@y.com'' ''w1'') st)"
proof -
  obtain n where "match relayMsg elem_small = Some n" using match_small by auto
  then show ?thesis
    by (simp add: ParseEvent_def FindStringIndex_def blob_small example_msg_def
        split: prod.splits option.splits)
qed

lemma ParseEvent_big:
  "ParseEvent example_json example_parser (Some elem_big) st =
     (Some (StoreEventSize ''c@x.com'' 8192),
      log_Printf (LogParseEventMessage ''c@x.com'' ''bob@y.com'' ''w2'') st)"
proof -
  obtain n where "match relayMsg elem_big = Some n" using match_big by auto
  then show ?thesis
    by (simp add: ParseEvent_def FindStringIndex_def blob_big big_msg_def StoreEvent_def
        MaxMessageSize_def)
qed

theorem StoreEvent_too_large_witness:
  "MaxMessageSize \<le> length (Email (Content big_msg)) \<and>
   StoreEvent example_parser big_msg empty_state =
     (Some (StoreEventSize ''c@x.com'' 8192), empty_state) \<and>
   all_small (dbh empty_state) \<and>
   all_small (dbh (snd (StoreEvent example_parser big_msg empty_state))) \<and>
   all_small (dbh (snd (ProcessRequests example_json example_parser [req_big, req_small] empty_state)))"
proof -
  have a: "MaxMessageSize \<le> length (Email (Content big_msg))"
    by (simp add: big_msg_def MaxMessageSize_def)
  have b: "all_small (dbh empty_state)"
    by (simp add: all_small_def empty_state_def empty_db_def)
  from StoreEvent_too_large [where msg = big_msg and p = example_parser and st = empty_state
      and js = example_json and reqs = "[req_big, req_small]"] a b
  show ?thesis by (simp add: big_msg_def)
qed

section \<open>The loops of ProcessRequests\<close>

lemma parse_events_append:
  "parse_events js p (xs @ ys) st =
     (case parse_events js p xs st of
        (Some err, st') \<Rightarrow> (Some err, st')
      | (None, st') \<Rightarrow> parse_events js p ys st')"
  by (induction xs arbitrary: st) (auto split: prod.splits option.splits)

lemma process_from_append:
  "process_from js p i (xs @ ys) st =
     (case process_from js p i xs st of
        (Some err, st') \<Rightarrow> (Some err, st')
      | (None, st') \<Rightarrow> process_from js p (i + length xs) ys st')"
  by (induction xs arbitrary: st i) (auto split: prod.splits option.splits)


section \<open>Elements that are no relay messages\<close>

lemma ParseEvent_no_match:
  "match relayMsg elem = None \<Longrightarrow>
     ParseEvent js p (Some elem) st = (None, log_Printf (LogParseEventIgnored elem) st)"
  by (simp add: ParseEvent_def FindStringIndex_def)

lemma ParseEvent_no_shape:
  "\<not> relay_shape elem \<Longrightarrow>
     ParseEvent js p (Some elem) st = (None, log_Printf (LogParseEventIgnored elem) st)"
  using relayMsg_shape [of elem] by (simp add: ParseEvent_no_match)

lemma parse_events_no_relay:
  "list_all no_relay_element events \<Longrightarrow>
     fst (parse_events js p events st) = None \<and> dbh (snd (parse_events js p events st)) = dbh st"
proof (induction events arbitrary: st)
  case Nil
  then show ?case by simp
next
  case (Cons e events)
  from Cons.prems have e: "no_relay_element e" and es: "list_all no_relay_element events"
    by simp_all
  show ?case
  proof (cases e)
    case None
    with Cons.IH [OF es, of st] show ?thesis by (simp add: ParseEvent_def)
  next
    case (Some elem)
    with e have "\<not> relay_shape elem" by (simp add: no_relay_element_def)
    then have "ParseEvent js p e st = (None, log_Printf (LogParseEventIgnored elem) st)"
      using Some by (simp add: ParseEvent_no_shape)
    with Cons.IH [OF es, of "log_Printf (LogParseEventIgnored elem) st"] show ?thesis
      by (simp add: log_Printf_dbh)
  qed
qed

text \<open>
  Claim C5: for every raw payload that is a valid JSON array none of whose elements has
  the relay-message shape, extraction succeeds (no error) and nothing is stored: the
  database is as it was.
\<close>

theorem extract_without_relay_messages:
  assumes "Unmarshal_events js (Data req) = Some events"
    and "list_all no_relay_element events"
  shows "fst (ProcessRequests js p [req] st) = None \<and>
         dbh (snd (ProcessRequests js p [req] st)) = dbh st"
proof -
  let ?st1 = "log_Printf (LogProcessRequestsFound (length events) 0)
                (log_Printf (LogProcessRequestsCalled (length [req])) st)"
  from parse_events_no_relay [OF assms(2), of js p ?st1]
  have a: "fst (parse_events js p events ?st1) = None"
    and b: "dbh (snd (parse_events js p events ?st1)) = dbh st"
    by (simp_all add: log_Printf_dbh)
  obtain r st' where r: "parse_events js p events ?st1 = (r, st')"
    by (cases "parse_events js p events ?st1")
  with a b have "r = None" "dbh st' = dbh st" by simp_all
  with r assms(1) show ?thesis by (simp add: ProcessRequests_def)
qed

theorem extract_without_relay_messages_witness:
  "Unmarshal_events example_json (Data req_other) = Some [Some elem_other, None] \<and>
   list_all no_relay_element [Some elem_other, None] \<and>
   fst (ProcessRequests example_json example_parser [req_other] empty_state) = None \<and>
   dbh (snd (ProcessRequests example_json example_parser [req_other] empty_state)) = empty_db"
proof -
  have "\<not> relay_shape elem_other" using relayMsg_shape [of elem_other] match_other by simp
  then have b: "list_all no_relay_element [Some elem_other, None]"
    by (simp add: no_relay_element_def)
  from extract_without_relay_messages [OF events_other b, of example_parser empty_state]
    events_other b
  show ?thesis by (simp add: empty_state_def)
qed

text \<open>
  Claim C9, as amended: the recognition depends on the order of the keys in the text. The
  pattern matches exactly the texts of the shape \<open>relay_shape\<close> (first key \<^verbatim>\<open>"msys"\<close>,
  whose object has the first key \<^verbatim>\<open>"relay_message"\<close>); every other element, whatever the
  decoder would find in it, is skipped without error and never stored, and the skip is
  logged: \<open>ParseEvent\<close> writes the line \<^verbatim>\<open>ParseEvent ignored event\<close> with the text of the
  element.
\<close>

theorem relayMsg_order_sensitive:
  "(match relayMsg elem \<noteq> None \<longleftrightarrow> relay_shape elem) \<and>
   (\<not> relay_shape elem \<longrightarrow>
      ParseEvent js p (Some elem) st = (None, log_Printf (LogParseEventIgnored elem) st))"
  using relayMsg_shape [of elem] by (simp add: ParseEvent_no_shape)

theorem relayMsg_order_sensitive_witness:
  "\<not> relay_shape elem_reordered \<and>
   match relayMsg elem_reordered = None \<and>
   (case Unmarshal_blob example_json elem_reordered of
      None \<Rightarrow> False
    | Some blob \<Rightarrow>
        (case blob ''msys'' of
           None \<Rightarrow> False
         | Some msys \<Rightarrow> msys ''relay_message'' = Some example_msg)) \<and>
   ParseEvent example_json example_parser (Some elem_reordered) empty_state =
     (None, log_Printf (LogParseEventIgnored elem_reordered) empty_state)"
  using relayMsg_order_sensitive [of elem_reordered example_json example_parser empty_state]
    match_reordered blob_reordered
  by simp

text \<open>
  Claim C9 as it is written fails in one word: the skip is not silent. An element that
  holds a relay message under \<^verbatim>\<open>msys\<close> behind another key is skipped without error and
  without a row, but the log, empty before the call, holds one line after it.
\<close>

theorem relayMsg_skip_logged_counterexample:
  "match relayMsg elem_reordered = None \<and>
   fst (ParseEvent example_json example_parser (Some elem_reordered) empty_state) = None \<and>
   dbh (snd (ParseEvent example_json example_parser (Some elem_reordered) empty_state)) =
     empty_db \<and>
   logs empty_state = [] \<and>
   logs (snd (ParseEvent example_json example_parser (Some elem_reordered) empty_state)) =
     [LogParseEventIgnored elem_reordered] \<and>
   snd (ParseEvent example_json example_parser (Some elem_reordered) empty_state) \<noteq>
     empty_state"
  by (simp add: ParseEvent_no_match [OF match_reordered] match_reordered log_Printf_def
      empty_state_def)

section \<open>Requests that are not JSON arrays\<close>

lemma result_eta:
  "(case x of (Some err, st') \<Rightarrow> (Some err, st') | (None, st') \<Rightarrow> (None, st')) = x"
  by (simp split: prod.splits option.splits)

lemma StoreEvent_dbh_only:
  assumes "dbh st = dbh st'"
  shows "fst (StoreEvent p msg st) = fst (StoreEvent p msg st') \<and>
         dbh (snd (StoreEvent p msg st)) = dbh (snd (StoreEvent p msg st'))"
  using assms by (simp add: StoreEvent_def split: prod.splits option.splits)

lemma ParseEvent_dbh_only:
  assumes "dbh st = dbh st'"
  shows "fst (ParseEvent js p j st) = fst (ParseEvent js p j st') \<and>
         dbh (snd (ParseEvent js p j st)) = dbh (snd (ParseEvent js p j st'))"
proof -
  have "dbh (log_Printf l st) = dbh (log_Printf l st')" for l
    using assms by (simp add: log_Printf_dbh)
  from StoreEvent_dbh_only [OF this] assms show ?thesis
    by (simp add: ParseEvent_def result_eta log_Printf_dbh split: option.splits list.splits)
qed

lemma parse_events_dbh_only:
  "dbh st = dbh st' \<Longrightarrow>
     fst (parse_events js p events st) = fst (parse_events js p events st') \<and>
     dbh (snd (parse_events js p events st)) = dbh (snd (parse_events js p events st'))"
proof (induction events arbitrary: st st')
  case Nil
  then show ?case by simp
next
  case (Cons e events)
  obtain r s1 where a: "ParseEvent js p e st = (r, s1)" by (cases "ParseEvent js p e st")
  obtain r' s1' where b: "ParseEvent js p e st' = (r', s1')" by (cases "ParseEvent js p e st'")
  from ParseEvent_dbh_only [OF Cons.prems, of js p e] a b
  have c: "r = r'" "dbh s1 = dbh s1'" by simp_all
  show ?case
  proof (cases r)
    case None
    with a b c Cons.IH [OF c(2)] show ?thesis by simp
  next
    case (Some err)
    with a b c show ?thesis by auto
  qed
qed

lemma process_from_dbh_only:
  "dbh st = dbh st' \<Longrightarrow>
     fst (process_from js p i reqs st) = fst (process_from js p i' reqs st') \<and>
     dbh (snd (process_from js p i reqs st)) = dbh (snd (process_from js p i' reqs st'))"
proof (induction reqs arbitrary: st st' i i')
  case Nil
  then show ?case by simp
next
  case (Cons req reqs)
  show ?case
  proof (cases "Unmarshal_events js (Data req)")
    case None
    have "dbh (log_Printf (LogProcessRequestsBadJSON (Data req)) st) =
          dbh (log_Printf (LogProcessRequestsBadJSON (Data req)) st')"
      using Cons.prems by (simp add: log_Printf_dbh)
    from Cons.IH [OF this, of "Suc i" "Suc i'"] None show ?thesis by simp
  next
    case (Some events)
    let ?s = "log_Printf (LogProcessRequestsFound (length events) i) st"
    let ?s' = "log_Printf (LogProcessRequestsFound (length events) i') st'"
    have d: "dbh ?s = dbh ?s'" using Cons.prems by (simp add: log_Printf_dbh)
    obtain r s1 where a: "parse_events js p events ?s = (r, s1)"
      by (cases "parse_events js p events ?s")
    obtain r' s1' where b: "parse_events js p events ?s' = (r', s1')"
      by (cases "parse_events js p events ?s'")
    from parse_events_dbh_only [OF d, of js p events] a b
    have c: "r = r'" "dbh s1 = dbh s1'" by simp_all
    show ?thesis
    proof (cases r)
      case None
      with a b c Some Cons.IH [OF c(2), of "Suc i" "Suc i'"] show ?thesis by simp
    next
      case (Some err)
      with a b c \<open>Unmarshal_events js (Data req) = Some events\<close> show ?thesis by auto
    qed
  qed
qed

text \<open>
  Claim C6: a raw request whose payload does not parse as a JSON array is logged and
  skipped. Alone it gives success with nothing stored. Anywhere in a batch,
  \<open>ProcessRequests\<close> returns the same result and leaves the same table as on the batch
  without it: nothing is stored for it and it never aborts the batch. The requests \<open>post\<close>
  after it are processed from the state that the requests \<open>pre\<close> before it left, with the
  one log line added.
\<close>

theorem malformed_request_skipped:
  assumes "Unmarshal_events js (Data req) = None"
  shows "ProcessRequests js p [req] st =
           (None, log_Printf (LogProcessRequestsBadJSON (Data req))
                    (log_Printf (LogProcessRequestsCalled 1) st)) \<and>
         fst (ProcessRequests js p (pre @ req # post) st) =
           fst (ProcessRequests js p (pre @ post) st) \<and>
         dbh (snd (ProcessRequests js p (pre @ req # post) st)) =
           dbh (snd (ProcessRequests js p (pre @ post) st)) \<and>
         ProcessRequests js p (pre @ req # post) st =
           (case process_from js p 0 pre
                   (log_Printf (LogProcessRequestsCalled (Suc (length pre + length post))) st) of
              (Some err, st') \<Rightarrow> (Some err, st')
            | (None, st') \<Rightarrow>
                process_from js p (Suc (length pre)) post
                  (log_Printf (LogProcessRequestsBadJSON (Data req)) st'))"
proof -
  let ?s = "log_Printf (LogProcessRequestsCalled (Suc (length pre + length post))) st"
  let ?s' = "log_Printf (LogProcessRequestsCalled (length pre + length post)) st"
  have one: "ProcessRequests js p [req] st =
           (None, log_Printf (LogProcessRequestsBadJSON (Data req))
                    (log_Printf (LogProcessRequestsCalled 1) st))"
    using assms by (simp add: ProcessRequests_def)
  have eq: "ProcessRequests js p (pre @ req # post) st =
           (case process_from js p 0 pre ?s of
              (Some err, st') \<Rightarrow> (Some err, st')
            | (None, st') \<Rightarrow>
                process_from js p (Suc (length pre)) post
                  (log_Printf (LogProcessRequestsBadJSON (Data req)) st'))"
    using assms
    by (simp add: ProcessRequests_def process_from_append split: prod.splits option.splits)
  have eq': "ProcessRequests js p (pre @ post) st =
           (case process_from js p 0 pre ?s' of
              (Some err, st') \<Rightarrow> (Some err, st')
            | (None, st') \<Rightarrow> process_from js p (length pre) post st')"
    by (simp add: ProcessRequests_def process_from_append split: prod.splits option.splits)
  have d: "dbh ?s = dbh ?s'" by (simp add: log_Printf_dbh)
  obtain r s1 where a: "process_from js p 0 pre ?s = (r, s1)"
    by (cases "process_from js p 0 pre ?s")
  obtain r' s1' where b: "process_from js p 0 pre ?s' = (r', s1')"
    by (cases "process_from js p 0 pre ?s'")
  from process_from_dbh_only [OF d, of js p 0 pre 0] a b
  have c: "r = r'" "dbh s1 = dbh s1'" by simp_all
  have rel: "fst (ProcessRequests js p (pre @ req # post) st) =
           fst (ProcessRequests js p (pre @ post) st) \<and>
         dbh (snd (ProcessRequests js p (pre @ req # post) st)) =
           dbh (snd (ProcessRequests js p (pre @ post) st))"
  proof (cases r)
    case None
    have "dbh (log_Printf (LogProcessRequestsBadJSON (Data req)) s1) = dbh s1'"
      using c(2) by (simp add: log_Printf_dbh)
    from process_from_dbh_only [OF this, of js p "Suc (length pre)" post "length pre"]
      None a b c(1)
    show ?thesis by (simp add: eq eq')
  next
    case (Some err)
    with a b c show ?thesis by (auto simp: eq eq')
  qed
  from one rel eq show ?thesis by simp
qed

theorem malformed_request_skipped_witness:
  "Unmarshal_events example_json (Data req_bad) = None \<and>
   ProcessRequests example_json example_parser [req_bad] empty_state =
     (None, \<lparr>dbh = empty_db,
             logs = [LogProcessRequestsCalled 1, LogProcessRequestsBadJSON (Data req_bad)]\<rparr>) \<and>
   ProcessRequests example_json example_parser ([req_small] @ [req_small]) empty_state =
     (None,
      \<lparr>dbh = \<lparr>relay_messages =
                 [\<lparr>message_id = 1, webhook_id = ''w1'', smtp_from = ''a@x.com'',
                   smtp_to = ''bob@y.com'', subject = ''Hi'', rfc822 = ''hello'',
                   is_base64 = False, status_id = 0\<rparr>,
                  \<lparr>message_id = 2, webhook_id = ''w1'', smtp_from = ''a@x.com'',
                   smtp_to = ''bob@y.com'', subject = ''Hi'', rfc822 = ''hello'',
                   is_base64 = False, status_id = 0\<rparr>],
               message_id_seq = 2, faults = [], statements = 2\<rparr>,
       logs = [LogProcessRequestsCalled 2,
               LogProcessRequestsFound 1 0, LogParseEventMessage ''a@x.com'' ''bob@y.com'' ''w1'',
               LogProcessRequestsFound 1 1, LogParseEventMessage ''a@x.com'' ''bob@y.com'' ''w1'']\<rparr>) \<and>
   ProcessRequests example_json example_parser ([req_small] @ req_bad # [req_small]) empty_state =
     (None,
      \<lparr>dbh = \<lparr>relay_messages =
                 [\<lparr>message_id = 1, webhook_id = ''w1'', smtp_from = ''a@x.com'',
                   smtp_to = ''bob@y.com'', subject = ''Hi'', rfc822 = ''hello'',
                   is_base64 = False, status_id = 0\<rparr>,
                  \<lparr>message_id = 2, webhook_id = ''w1'', smtp_from = ''a@x.com'',
                   smtp_to = ''bob@y.com'', subject = ''Hi'', rfc822 = ''hello'',
                   is_base64 = False, status_id = 0\<rparr>],
               message_id_seq = 2, faults = [], statements = 2\<rparr>,
       logs = [LogProcessRequestsCalled 3,
               LogProcessRequestsFound 1 0, LogParseEventMessage ''a@x.com'' ''bob@y.com'' ''w1'',
               LogProcessRequestsBadJSON (Data req_bad),
               LogProcessRequestsFound 1 2, LogParseEventMessage ''a@x.com'' ''bob@y.com'' ''w1'']\<rparr>)"
  using malformed_request_skipped [OF events_bad, of example_parser empty_state "[req_small]"
      "[req_small]"] events_bad
  by (simp add: ProcessRequests_def events_small ParseEvent_small StoreEvent_def Exec_insert_def
      next_fault_def example_msg_def MaxMessageSize_def log_Printf_def empty_state_def
      empty_db_def numeral_2_eq_2 numeral_3_eq_3)

section \<open>A store failure ends the batch\<close>

lemma ParseEvent_store:
  assumes "relay_shape elem" and "Unmarshal_blob js elem = Some blob"
    and "blob ''msys'' = Some msys" and "msys ''relay_message'' = Some msg"
  shows "ParseEvent js p (Some elem) st =
           StoreEvent p msg
             (log_Printf (LogParseEventMessage (From msg) (To msg) (WebhookID msg)) st)"
proof -
  from assms(1) have "match relayMsg elem \<noteq> None" by (simp only: relayMsg_shape)
  then obtain n where "match relayMsg elem = Some n" by auto
  with assms(2-4) show ?thesis
    by (simp add: ParseEvent_def FindStringIndex_def split: prod.splits option.splits)
qed

lemma StoreEvent_oversized:
  "MaxMessageSize \<le> length (Email (Content msg)) \<Longrightarrow>
     StoreEvent p msg st =
       (Some (StoreEventSize (From msg) (length (Email (Content msg)))), st)"
  by (simp add: StoreEvent_def)

lemma StoreEvent_refused:
  "length (Email (Content msg)) < MaxMessageSize \<Longrightarrow> fst (next_fault (dbh st)) \<noteq> NoFault \<Longrightarrow>
     StoreEvent p msg st =
       (Some (StoreEventInsert (fault_message (fst (next_fault (dbh st))))),
        st\<lparr>dbh := snd (next_fault (dbh st))\<rparr>)"
  by (simp add: StoreEvent_def Exec_insert_cases fault_message_def)

text \<open>
  Claim C1, as amended: if storing one decoded event of a raw request fails, because its
  body has 8192 bytes or more or because the database refuses the \<^verbatim>\<open>INSERT\<close>, that error is
  returned from \<open>ProcessRequests\<close> at once: neither the remaining elements \<open>ys\<close> of that
  raw request nor the raw requests \<open>post\<close> after it are processed, and the final state is
  the one that the failing store left.
\<close>

theorem store_failure_aborts_batch:
  assumes "process_from js p 0 pre
             (log_Printf (LogProcessRequestsCalled (length (pre @ req # post))) st) = (None, st1)"
    and "Unmarshal_events js (Data req) = Some (xs @ Some elem # ys)"
    and "parse_events js p xs
           (log_Printf (LogProcessRequestsFound (length (xs @ Some elem # ys)) (length pre)) st1) =
           (None, st2)"
    and "relay_shape elem" and "Unmarshal_blob js elem = Some blob"
    and "blob ''msys'' = Some msys" and "msys ''relay_message'' = Some msg"
  shows "(MaxMessageSize \<le> length (Email (Content msg)) \<longrightarrow>
            ProcessRequests js p (pre @ req # post) st =
              (Some (StoreEventSize (From msg) (length (Email (Content msg)))),
               log_Printf (LogParseEventMessage (From msg) (To msg) (WebhookID msg)) st2)) \<and>
         (length (Email (Content msg)) < MaxMessageSize \<and>
          fst (next_fault (dbh st2)) \<noteq> NoFault \<longrightarrow>
            ProcessRequests js p (pre @ req # post) st =
              (Some (StoreEventInsert (fault_message (fst (next_fault (dbh st2))))),
               (log_Printf (LogParseEventMessage (From msg) (To msg) (WebhookID msg)) st2)
                 \<lparr>dbh := snd (next_fault (dbh st2))\<rparr>))"
proof -
  let ?st = "log_Printf (LogParseEventMessage (From msg) (To msg) (WebhookID msg)) st2"
  have pe: "ParseEvent js p (Some elem) st2 = StoreEvent p msg ?st"
    using assms(4-7) by (rule ParseEvent_store)
  have abort: "ProcessRequests js p (pre @ req # post) st = (Some err, st3)"
    if "StoreEvent p msg ?st = (Some err, st3)" for err st3
  proof -
    from that pe have "ParseEvent js p (Some elem) st2 = (Some err, st3)" by simp
    with assms(3) have "parse_events js p (xs @ Some elem # ys)
          (log_Printf (LogProcessRequestsFound (length (xs @ Some elem # ys)) (length pre)) st1) =
          (Some err, st3)"
      by (simp add: parse_events_append)
    with assms(2) have "process_from js p (length pre) (req # post) st1 = (Some err, st3)"
      by simp
    with assms(1) show ?thesis
      by (simp add: ProcessRequests_def process_from_append)
  qed
  show ?thesis
  proof (intro conjI impI)
    assume "MaxMessageSize \<le> length (Email (Content msg))"
    from abort [OF StoreEvent_oversized [OF this]]
    show "ProcessRequests js p (pre @ req # post) st =
              (Some (StoreEventSize (From msg) (length (Email (Content msg)))), ?st)" .
  next
    assume a: "length (Email (Content msg)) < MaxMessageSize \<and>
          fst (next_fault (dbh st2)) \<noteq> NoFault"
    then have "fst (next_fault (dbh ?st)) \<noteq> NoFault" by (simp add: log_Printf_dbh)
    from abort [OF StoreEvent_refused [OF conjunct1 [OF a] this]]
    show "ProcessRequests js p (pre @ req # post) st =
              (Some (StoreEventInsert (fault_message (fst (next_fault (dbh st2))))),
               ?st\<lparr>dbh := snd (next_fault (dbh st2))\<rparr>)"
      by (simp add: log_Printf_dbh)
  qed
qed

text \<open>
  Two instances. In the first the failing store is the second of three elements of the
  second of three requests, and the body is too large; in the second the database
  refuses the first \<^verbatim>\<open>INSERT\<close> of a batch of two requests.
\<close>

theorem store_failure_aborts_batch_witness:
  "process_from example_json example_parser 0 [req_other]
     (log_Printf (LogProcessRequestsCalled (length ([req_other] @ req_mixed # [req_small])))
        empty_state) =
     (None, \<lparr>dbh = empty_db,
             logs = [LogProcessRequestsCalled 3, LogProcessRequestsFound 2 0,
                     LogParseEventIgnored elem_other]\<rparr>) \<and>
   Unmarshal_events example_json (Data req_mixed) =
     Some ([Some elem_small] @ Some elem_big # [Some elem_small]) \<and>
   parse_events example_json example_parser [Some elem_small]
     (log_Printf (LogProcessRequestsFound (length ([Some elem_small] @ Some elem_big # [Some elem_small]))
        (length [req_other]))
        \<lparr>dbh = empty_db,
         logs = [LogProcessRequestsCalled 3, LogProcessRequestsFound 2 0,
                 LogParseEventIgnored elem_other]\<rparr>) =
     (None,
      \<lparr>dbh = \<lparr>relay_messages =
                 [\<lparr>message_id = 1, webhook_id = ''w1'', smtp_from = ''a@x.com'',
                   smtp_to = ''bob@y.com'', subject = ''Hi'', rfc822 = ''hello'',
                   is_base64 = False, status_id = 0\<rparr>],
               message_id_seq = 1, faults = [], statements = 1\<rparr>,
       logs = [LogProcessRequestsCalled 3, LogProcessRequestsFound 2 0,
               LogParseEventIgnored elem_other, LogProcessRequestsFound 3 1,
               LogParseEventMessage ''a@x.com'' ''bob@y.com'' ''w1'']\<rparr>) \<and>
   relay_shape elem_big \<and>
   Unmarshal_blob example_json elem_big = Some [''msys'' \<mapsto> [''relay_message'' \<mapsto> big_msg]] \<and>
   MaxMessageSize \<le> length (Email (Content big_msg)) \<and>
   ProcessRequests example_json example_parser ([req_other] @ req_mixed # [req_small])
     empty_state =
     (Some (StoreEventSize ''c@x.com'' 8192),
      \<lparr>dbh = \<lparr>relay_messages =
                 [\<lparr>message_id = 1, webhook_id = ''w1'', smtp_from = ''a@x.com'',
                   smtp_to = ''bob@y.com'', subject = ''Hi'', rfc822 = ''hello'',
                   is_base64 = False, status_id = 0\<rparr>],
               message_id_seq = 1, faults = [], statements = 1\<rparr>,
       logs = [LogProcessRequestsCalled 3, LogProcessRequestsFound 2 0,
               LogParseEventIgnored elem_other, LogProcessRequestsFound 3 1,
               LogParseEventMessage ''a@x.com'' ''bob@y.com'' ''w1'',
               LogParseEventMessage ''c@x.com'' ''bob@y.com'' ''w2'']\<rparr>) \<and>
   relay_shape elem_small \<and>
   length (Email (Content example_msg)) < MaxMessageSize \<and>
   fst (next_fault (empty_db\<lparr>faults := [StmtFault ''connection refused'']\<rparr>)) \<noteq> NoFault \<and>
   ProcessRequests example_json example_parser ([] @ req_small # [req_small])
     (empty_state\<lparr>dbh := empty_db\<lparr>faults := [StmtFault ''connection refused'']\<rparr>\<rparr>) =
     (Some (StoreEventInsert ''connection refused''),
      \<lparr>dbh = empty_db\<lparr>statements := 1\<rparr>,
       logs = [LogProcessRequestsCalled 2, LogProcessRequestsFound 1 0,
               LogParseEventMessage ''a@x.com'' ''bob@y.com'' ''w1'']\<rparr>)"
proof -
  let ?st1 = "\<lparr>dbh = empty_db,
         logs = [LogProcessRequestsCalled 3, LogProcessRequestsFound 2 0,
                 LogParseEventIgnored elem_other]\<rparr>"
  let ?row = "\<lparr>message_id = 1, webhook_id = ''w1'', smtp_from = ''a@x.com'',
                   smtp_to = ''bob@y.com'', subject = ''Hi'', rfc822 = ''hello'',
                   is_base64 = False, status_id = 0\<rparr>"
  let ?st2 = "\<lparr>dbh = \<lparr>relay_messages = [?row], message_id_seq = 1, faults = [], statements = 1\<rparr>,
       logs = [LogProcessRequestsCalled 3, LogProcessRequestsFound 2 0,
               LogParseEventIgnored elem_other, LogProcessRequestsFound 3 1,
               LogParseEventMessage ''a@x.com'' ''bob@y.com'' ''w1'']\<rparr>"
  let ?f = "empty_state\<lparr>dbh := empty_db\<lparr>faults := [StmtFault ''connection refused'']\<rparr>\<rparr>"
  let ?f1 = "log_Printf (LogProcessRequestsCalled 2) ?f"
  let ?f2 = "log_Printf (LogProcessRequestsFound 1 0) ?f1"
  have nil: "ParseEvent example_json example_parser None s = (None, s)" for s
    by (simp add: ParseEvent_def)
  have a1: "process_from example_json example_parser 0 [req_other]
     (log_Printf (LogProcessRequestsCalled (length ([req_other] @ req_mixed # [req_small])))
        empty_state) = (None, ?st1)"
    by (simp add: events_other ParseEvent_no_match match_other nil log_Printf_def
        empty_state_def numeral_2_eq_2 numeral_3_eq_3)
  have a2: "Unmarshal_events example_json (Data req_mixed) =
     Some ([Some elem_small] @ Some elem_big # [Some elem_small])"
    by (simp add: events_mixed)
  have a3: "parse_events example_json example_parser [Some elem_small]
     (log_Printf (LogProcessRequestsFound
        (length ([Some elem_small] @ Some elem_big # [Some elem_small])) (length [req_other]))
        ?st1) = (None, ?st2)"
    by (simp add: ParseEvent_small StoreEvent_def Exec_insert_def next_fault_def example_msg_def
        MaxMessageSize_def log_Printf_def empty_db_def)
  have a4: "relay_shape elem_big" by (rule relayMsg_shape [THEN iffD1, OF match_big])
  have a5: "Unmarshal_blob example_json elem_big = Some [''msys'' \<mapsto> [''relay_message'' \<mapsto> big_msg]]"
    by (rule blob_big)
  have a6: "[''msys'' \<mapsto> [''relay_message'' \<mapsto> big_msg]] ''msys'' = Some [''relay_message'' \<mapsto> big_msg]"
    by simp
  have a7: "[''relay_message'' \<mapsto> big_msg] ''relay_message'' = Some big_msg" by simp
  have big: "MaxMessageSize \<le> length (Email (Content big_msg))"
    by (simp add: big_msg_def MaxMessageSize_def)
  have b1: "process_from example_json example_parser 0 []
     (log_Printf (LogProcessRequestsCalled (length ([] @ req_small # [req_small]))) ?f) =
     (None, ?f1)" by (simp add: numeral_2_eq_2)
  have b2: "Unmarshal_events example_json (Data req_small) = Some ([] @ Some elem_small # [])"
    by (simp add: events_small)
  have b3: "parse_events example_json example_parser []
     (log_Printf (LogProcessRequestsFound (length ([] @ Some elem_small # []))
        (length ([]::Request list))) ?f1) = (None, ?f2)" by simp
  have b4: "relay_shape elem_small" by (rule relayMsg_shape [THEN iffD1, OF match_small])
  have b5: "Unmarshal_blob example_json elem_small =
      Some [''msys'' \<mapsto> [''relay_message'' \<mapsto> example_msg]]"
    by (rule blob_small)
  have b6: "[''msys'' \<mapsto> [''relay_message'' \<mapsto> example_msg]] ''msys'' =
      Some [''relay_message'' \<mapsto> example_msg]" by simp
  have b7: "[''relay_message'' \<mapsto> example_msg] ''relay_message'' = Some example_msg" by simp
  have small: "length (Email (Content example_msg)) < MaxMessageSize"
    by (simp add: example_msg_def MaxMessageSize_def)
  have nf: "fst (next_fault (empty_db\<lparr>faults := [StmtFault ''connection refused'']\<rparr>)) \<noteq> NoFault"
    by (simp add: next_fault_def)
  have nf2: "fst (next_fault (dbh ?f2)) \<noteq> NoFault"
    by (simp add: next_fault_def log_Printf_def empty_state_def)
  from store_failure_aborts_batch [OF a1 a2 a3 a4 a5 a6 a7] big
  have r1: "ProcessRequests example_json example_parser ([req_other] @ req_mixed # [req_small])
     empty_state =
     (Some (StoreEventSize ''c@x.com'' 8192),
      log_Printf (LogParseEventMessage ''c@x.com'' ''bob@y.com'' ''w2'') ?st2)"
    by (simp add: big_msg_def)
  from store_failure_aborts_batch [OF b1 b2 b3 b4 b5 b6 b7] small nf2
  have r2: "ProcessRequests example_json example_parser ([] @ req_small # [req_small]) ?f =
     (Some (StoreEventInsert ''connection refused''),
      \<lparr>dbh = empty_db\<lparr>statements := 1\<rparr>,
       logs = [LogProcessRequestsCalled 2, LogProcessRequestsFound 1 0,
               LogParseEventMessage ''a@x.com'' ''bob@y.com'' ''w1'']\<rparr>)"
    by (simp add: fault_message_def next_fault_def log_Printf_def empty_state_def empty_db_def
        example_msg_def)
  from a1 a2 a3 a4 a5 big r1 b4 small nf r2 show ?thesis
    by (simp add: log_Printf_def)
qed

text \<open>
  Claim C1 as it is written fails: the first request holds a message of 8192 bytes, the
  second one a message of 5 bytes that is stored when it is processed alone. In the batch
  the second request is never looked at: no log line for it, no row.
\<close>

theorem store_failure_counterexample:
  "fst (ProcessRequests example_json example_parser [req_big, req_small] empty_state) =
     Some (StoreEventSize ''c@x.com'' 8192) \<and>
   snd (ProcessRequests example_json example_parser [req_big, req_small] empty_state) =
     \<lparr>dbh = empty_db,
      logs = [LogProcessRequestsCalled 2, LogProcessRequestsFound 1 0,
              LogParseEventMessage ''c@x.com'' ''bob@y.com'' ''w2'']\<rparr> \<and>
   fst (ProcessRequests example_json example_parser [req_small] empty_state) = None \<and>
   map webhook_id (relay_messages (dbh (snd
     (ProcessRequests example_json example_parser [req_small] empty_state)))) = [''w1'']"
  by (simp add: ProcessRequests_def events_big events_small ParseEvent_big ParseEvent_small
      StoreEvent_def Exec_insert_def next_fault_def example_msg_def MaxMessageSize_def
      log_Printf_def empty_state_def empty_db_def)

section \<open>Properties of the summary handler\<close>

lemma statements_Query_summary:
  "statements (snd (Query_summary db localpart domain)) = Suc (statements db)"
  by (simp add: Query_summary_def next_fault_def split: list.splits fault.splits)

lemma serve_hit:
  "cache_Get c t lp = Some b \<Longrightarrow>
     serve enc p t t' lp (c, st) =
       (\<lparr>status = 200, body = b\<rparr>, c, log_Printf (LogSummaryCacheHit lp) st)"
  by (simp add: serve_def Write_def)

lemma serve_miss_statements:
  assumes "cache_Get c t lp = None"
  shows "statements (dbh (snd (snd (serve enc p t t' lp (c, st))))) = Suc (statements (dbh st))"
proof -
  obtain q db' where q: "Query_summary (dbh st) lp (Domain p) = (q, db')"
    by (cases "Query_summary (dbh st) lp (Domain p)")
  with statements_Query_summary [of "dbh st" lp "Domain p"]
  have s: "statements db' = Suc (statements (dbh st))" by simp
  show ?thesis
    using assms q s
    by (simp add: serve_def log_Printf_def split: sum.splits prod.splits option.splits)
qed

lemma rows_Err_not_EOF: "rows_Err r \<noteq> Some EOF"
  by (simp add: rows_Err_def split: option.splits sql_error.splits)

lemma scan_loop_failing_row: "list_ex isl xs \<Longrightarrow> isl (scan_loop xs r res)"
proof (induction xs arbitrary: r res)
  case Nil
  then show ?case by simp
next
  case (Cons x xs)
  show ?case
  proof (cases x)
    case (Inl err)
    then show ?thesis by (simp add: Let_def rows_Err_not_EOF)
  next
    case (Inr row)
    with Cons.prems have "list_ex isl xs" by simp
    from Cons.IH [OF this] Inr show ?thesis
      by (simp add: Let_def rows_Err_not_EOF split: prod.splits)
  qed
qed

lemma scan_loop_all_rows:
  "\<not> list_ex isl xs \<Longrightarrow>
     scan_loop xs r res =
       Inr (fst (projr (scan_loop xs r res)), r\<lparr>pending := [], lasterr := Some (end_err r)\<rparr>)"
proof (induction xs arbitrary: r res)
  case Nil
  then show ?case by simp
next
  case (Cons x xs)
  from Cons.prems obtain row where x: "x = Inr row" and xs: "\<not> list_ex isl xs"
    by (cases x) simp_all
  obtain subj cnt where row: "row = (subj, cnt)" by (cases row)
  from Cons.IH [OF xs, of "r\<lparr>pending := xs\<rparr>"
      "append_results res \<lparr>Subject' = subj, Count = cnt\<rparr>"]
  show ?case using x row by (simp add: Let_def rows_Err_not_EOF)
qed

lemma serve_miss_failure:
  assumes "cache_Get c t lp = None" and "lookup_fails p lp st"
  shows "status (fst (serve enc p t t' lp (c, st))) = 500 \<and>
         body (fst (serve enc p t t' lp (c, st))) = ''Database error'' @ [CHR 0x0A] \<and>
         fst (snd (serve enc p t t' lp (c, st))) = c"
proof -
  obtain q db' where q: "Query_summary (dbh st) lp (Domain p) = (q, db')"
    by (cases "Query_summary (dbh st) lp (Domain p)")
  show ?thesis
  proof (cases q)
    case (Inl err)
    with assms(1) q show ?thesis
      by (simp add: serve_def http_Error_def StatusInternalServerError_def)
  next
    case (Inr rows)
    with assms(2) q have f: "list_ex isl (pending rows) \<or> end_err rows \<noteq> EOF"
      by (simp add: lookup_fails_def)
    show ?thesis
    proof (cases "list_ex isl (pending rows)")
      case True
      from scan_loop_failing_row [OF True, of rows "[]"]
      obtain err where "scan_loop (pending rows) rows [] = Inl err"
        by (cases "scan_loop (pending rows) rows []") simp_all
      with assms(1) q Inr show ?thesis
        by (simp add: serve_def http_Error_def StatusInternalServerError_def)
    next
      case False
      with f obtain e where e: "end_err rows = DriverError e" by (cases "end_err rows") simp_all
      from scan_loop_all_rows [OF False, of rows "[]"] e
      obtain res where "scan_loop (pending rows) rows [] =
          Inr (res, rows\<lparr>pending := [], lasterr := Some (DriverError e)\<rparr>)"
        by simp
      with assms(1) q Inr show ?thesis
        by (simp add: serve_def rows_Err_def http_Error_def StatusInternalServerError_def)
    qed
  qed
qed

lemma cache_Get_later:
  "cache_Get c t k = None \<Longrightarrow> t \<le> t2 \<Longrightarrow> cache_Get c t2 k = None"
  by (auto simp: cache_Get_def expired_def split: option.splits if_splits)

lemma cache_Get_DeleteExpired:
  "tj \<le> t \<Longrightarrow> cache_Get (DeleteExpired c tj) t k = cache_Get c t k"
  by (auto simp: cache_Get_def DeleteExpired_def expired_def split: option.splits)

lemma cache_Get_Set:
  "defaultExpiration c = 1 * Second \<Longrightarrow> t \<le> t' + 1 * Second \<Longrightarrow>
     cache_Get (cache_Set c t' k b DefaultExpiration) t k = Some b"
  by (simp add: cache_Get_def cache_Set_def expired_def DefaultExpiration_def Second_def Let_def)

lemma serve_miss_success:
  assumes "cache_Get c t lp = None" and "status (fst (serve enc p t t' lp (c, st))) = 200"
  shows "fst (serve enc p t t' lp (c, st)) = Write (body (fst (serve enc p t t' lp (c, st)))) \<and>
         fst (snd (serve enc p t t' lp (c, st))) =
           cache_Set c t' lp (body (fst (serve enc p t t' lp (c, st)))) DefaultExpiration"
  using assms
  by (auto simp: serve_def http_Error_def StatusInternalServerError_def Write_def
      split: sum.splits prod.splits option.splits)

lemma show_int_1: "show_int 1 = ''1''"
  by (simp add: show_int_def show_nat.simps digit_def)

lemma cache_miss_fresh: "cache_Get SummaryHandler_cache t lp = None"
  by (simp add: cache_Get_def SummaryHandler_cache_def cache_New_def)

lemma serve_bob:
  \<open>serve enc example_parser t t' ''bob'' (SummaryHandler_cache, bob_state) =
     (\<lparr>status = 200, body = ''{"results":[{"subject":'' @ enc ''Hi'' @ '',"count":1}]}''\<rparr>,
      cache_Set SummaryHandler_cache t' ''bob''
        (''{"results":[{"subject":'' @ enc ''Hi'' @ '',"count":1}]}'') DefaultExpiration,
      bob_state\<lparr>dbh := bob_db\<lparr>statements := 2\<rparr>\<rparr>)\<close>
  by (simp add: serve_def cache_miss_fresh Query_summary_def next_fault_def bob_state_def
      bob_db_def summary_select_def example_parser_def rows_Err_def append_results_def
      json_Marshal_def marshal_slice_def marshal_SummaryResponse_def show_int_1 Write_def)

text \<open>
  Claim C7: when the query fails, the scan of some row fails or the iteration ends with an
  error, the handler answers with status 500 and the body \<^verbatim>\<open>Database error\<close>, and leaves
  the cache as it was; a lookup for the same localpart at any later time misses the cache
  again and sends the query again (one more statement).
\<close>

theorem lookup_failure_not_cached:
  assumes "cache_Get c t lp = None" and "lookup_fails p lp st" and "t \<le> t2"
  shows "fst (serve enc p t t' lp (c, st)) =
           \<lparr>status = 500, body = ''Database error'' @ [CHR 0x0A]\<rparr> \<and>
         fst (snd (serve enc p t t' lp (c, st))) = c \<and>
         cache_Get (fst (snd (serve enc p t t' lp (c, st)))) t2 lp = None \<and>
         statements (dbh (snd (snd
           (serve enc p t2 t2' lp (snd (serve enc p t t' lp (c, st))))))) =
           Suc (Suc (statements (dbh st)))"
proof -
  obtain r c' st' where r: "serve enc p t t' lp (c, st) = (r, c', st')"
    by (cases "serve enc p t t' lp (c, st)")
  from serve_miss_failure [OF assms(1,2), of enc t'] r
  have a: "status r = 500" "body r = ''Database error'' @ [CHR 0x0A]" and b: "c' = c"
    by simp_all
  from a have a': "r = \<lparr>status = 500, body = ''Database error'' @ [CHR 0x0A]\<rparr>"
    by (cases r) simp
  from cache_Get_later [OF assms(1,3)] b have m: "cache_Get c' t2 lp = None" by simp
  from serve_miss_statements [OF assms(1), of enc p t' st] r
  have s1: "statements (dbh st') = Suc (statements (dbh st))" by simp
  from serve_miss_statements [OF m, of enc p t2' st'] s1
  have "statements (dbh (snd (snd (serve enc p t2 t2' lp (c', st'))))) =
          Suc (Suc (statements (dbh st)))" by simp
  with r a' b m show ?thesis by simp
qed

lemma query_two:
  "fst (Query_summary (dbh (two_state f)) ''bob'' (Domain example_parser)) =
     (case f of
        NoFault \<Rightarrow> Inr \<lparr>pending = [Inr (''Hi'', 1), Inr (''Yo'', 1)], end_err = EOF, lasterr = None\<rparr>
      | StmtFault e \<Rightarrow> Inl e
      | ScanFault n e \<Rightarrow>
          Inr \<lparr>pending = [Inr (''Hi'', 1), Inr (''Yo'', 1)][n := Inl e], end_err = EOF,
               lasterr = None\<rparr>
      | IterFault n e \<Rightarrow>
          Inr \<lparr>pending = take n [Inr (''Hi'', 1), Inr (''Yo'', 1)], end_err = DriverError e,
               lasterr = None\<rparr>)"
  by (simp add: Query_summary_def next_fault_def two_state_def two_db_def summary_select_def
      example_parser_def split: fault.splits)

theorem lookup_failure_not_cached_witness:
  "cache_Get SummaryHandler_cache 5 ''bob'' = None \<and>
   lookup_fails example_parser ''bob'' (two_state (StmtFault ''connection refused'')) \<and>
   lookup_fails example_parser ''bob'' (two_state (ScanFault 1 ''unsupported Scan'')) \<and>
   lookup_fails example_parser ''bob'' (two_state (IterFault 1 ''connection reset'')) \<and>
   (5::int) \<le> 7 \<and>
   serve example_enc example_parser 5 6 ''bob''
     (SummaryHandler_cache, two_state (StmtFault ''connection refused'')) =
     (\<lparr>status = 500, body = ''Database error'' @ [CHR 0x0A]\<rparr>, SummaryHandler_cache,
      \<lparr>dbh = two_db\<lparr>statements := 3\<rparr>, logs = [LogSummarySelect ''connection refused'']\<rparr>) \<and>
   serve example_enc example_parser 5 6 ''bob''
     (SummaryHandler_cache, two_state (ScanFault 1 ''unsupported Scan'')) =
     (\<lparr>status = 500, body = ''Database error'' @ [CHR 0x0A]\<rparr>, SummaryHandler_cache,
      \<lparr>dbh = two_db\<lparr>statements := 3\<rparr>, logs = [LogSummaryScan ''unsupported Scan'']\<rparr>) \<and>
   serve example_enc example_parser 5 6 ''bob''
     (SummaryHandler_cache, two_state (IterFault 1 ''connection reset'')) =
     (\<lparr>status = 500, body = ''Database error'' @ [CHR 0x0A]\<rparr>, SummaryHandler_cache,
      \<lparr>dbh = two_db\<lparr>statements := 3\<rparr>,
       logs = [LogSummaryErr (DriverError ''connection reset'')]\<rparr>) \<and>
   statements (dbh (snd (snd (serve example_enc example_parser 7 8 ''bob''
     (snd (serve example_enc example_parser 5 6 ''bob''
       (SummaryHandler_cache, two_state (ScanFault 1 ''unsupported Scan'')))))))) = 4"
proof -
  let ?s1 = "two_state (StmtFault ''connection refused'')"
  let ?s2 = "two_state (ScanFault 1 ''unsupported Scan'')"
  let ?s3 = "two_state (IterFault 1 ''connection reset'')"
  have m: "cache_Get SummaryHandler_cache 5 ''bob'' = None" by (rule cache_miss_fresh)
  have f1: "lookup_fails example_parser ''bob'' ?s1" by (simp add: lookup_fails_def query_two)
  have f2: "lookup_fails example_parser ''bob'' ?s2" by (simp add: lookup_fails_def query_two)
  have f3: "lookup_fails example_parser ''bob'' ?s3" by (simp add: lookup_fails_def query_two)
  have le: "(5::int) \<le> 7" by simp
  have st: "snd (snd (serve example_enc example_parser 5 6 ''bob'' (SummaryHandler_cache, ?s1))) =
      \<lparr>dbh = two_db\<lparr>statements := 3\<rparr>, logs = [LogSummarySelect ''connection refused'']\<rparr>"
    "snd (snd (serve example_enc example_parser 5 6 ''bob'' (SummaryHandler_cache, ?s2))) =
      \<lparr>dbh = two_db\<lparr>statements := 3\<rparr>, logs = [LogSummaryScan ''unsupported Scan'']\<rparr>"
    "snd (snd (serve example_enc example_parser 5 6 ''bob'' (SummaryHandler_cache, ?s3))) =
      \<lparr>dbh = two_db\<lparr>statements := 3\<rparr>,
       logs = [LogSummaryErr (DriverError ''connection reset'')]\<rparr>"
    by (simp_all add: serve_def cache_miss_fresh Query_summary_def next_fault_def two_state_def
        two_db_def summary_select_def example_parser_def rows_Err_def append_results_def
        log_Printf_def)
  from lookup_failure_not_cached [OF m f1 le, of example_enc 6 8]
       lookup_failure_not_cached [OF m f2 le, of example_enc 6 8]
       lookup_failure_not_cached [OF m f3 le, of example_enc 6 8]
       m f1 f2 f3 st
  show ?thesis by (simp add: prod_eq_iff two_state_def two_db_def)
qed

text \<open>
  Claim C8: a lookup that finds an unexpired entry answers with status 200 and exactly the
  stored bytes, with the cache and the database untouched (only the log line of the hit
  is added). After a lookup that computed its answer at time \<open>t1'\<close>, a lookup for the same
  localpart up to one second later gets the same response from the cache, also when the
  sweep has run in between.
\<close>

theorem summary_cache_hit:
  "(cache_Get c t lp = Some b \<longrightarrow>
      serve enc p t t' lp (c, st) =
        (\<lparr>status = 200, body = b\<rparr>, c, log_Printf (LogSummaryCacheHit lp) st)) \<and>
   (cache_Get c t1 lp = None \<and> serve enc p t1 t1' lp (c, st) = (r, c', st') \<and>
    status r = 200 \<and> defaultExpiration c = 1 * Second \<and> t2 \<le> t1' + 1 * Second \<longrightarrow>
      serve enc2 p2 t2 t2' lp (c', st2) =
        (r, c', log_Printf (LogSummaryCacheHit lp) st2) \<and>
      (tj \<le> t2 \<longrightarrow>
         serve enc2 p2 t2 t2' lp (DeleteExpired c' tj, st2) =
           (r, DeleteExpired c' tj, log_Printf (LogSummaryCacheHit lp) st2)))"
proof (intro conjI impI)
  assume "cache_Get c t lp = Some b"
  then show "serve enc p t t' lp (c, st) =
        (\<lparr>status = 200, body = b\<rparr>, c, log_Printf (LogSummaryCacheHit lp) st)"
    by (rule serve_hit)
next
  assume h: "cache_Get c t1 lp = None \<and> serve enc p t1 t1' lp (c, st) = (r, c', st') \<and>
    status r = 200 \<and> defaultExpiration c = 1 * Second \<and> t2 \<le> t1' + 1 * Second"
  then have miss: "cache_Get c t1 lp = None" and sv: "serve enc p t1 t1' lp (c, st) = (r, c', st')"
    and ok: "status r = 200" and de: "defaultExpiration c = 1 * Second"
    and le: "t2 \<le> t1' + 1 * Second" by simp_all
  from serve_miss_success [OF miss, of enc p t1' st] sv ok
  have r: "r = Write (body r)" and c': "c' = cache_Set c t1' lp (body r) DefaultExpiration"
    by simp_all
  from cache_Get_Set [OF de le, of lp "body r"] c'
  have g: "cache_Get c' t2 lp = Some (body r)" by simp
  have w: "\<lparr>status = 200, body = body r\<rparr> = r" using r by (simp add: Write_def)
  from serve_hit [OF g, of enc2 p2 t2' st2] w
  show "serve enc2 p2 t2 t2' lp (c', st2) = (r, c', log_Printf (LogSummaryCacheHit lp) st2)"
    by simp
  {
    assume "tj \<le> t2"
    from cache_Get_DeleteExpired [OF this, of c' lp] g
    have "cache_Get (DeleteExpired c' tj) t2 lp = Some (body r)" by simp
    from serve_hit [OF this, of enc2 p2 t2' st2] w
    show "serve enc2 p2 t2 t2' lp (DeleteExpired c' tj, st2) =
           (r, DeleteExpired c' tj, log_Printf (LogSummaryCacheHit lp) st2)"
      by simp
  }
qed

theorem summary_cache_hit_witness:
  \<open>cache_Get SummaryHandler_cache 5 ''bob'' = None \<and>
   serve example_enc example_parser 5 6 ''bob'' (SummaryHandler_cache, bob_state) =
     (\<lparr>status = 200, body = ''{"results":[{"subject":"Hi","count":1}]}''\<rparr>,
      cache_Set SummaryHandler_cache 6 ''bob'' ''{"results":[{"subject":"Hi","count":1}]}''
        DefaultExpiration,
      bob_state\<lparr>dbh := bob_db\<lparr>statements := 2\<rparr>\<rparr>) \<and>
   defaultExpiration SummaryHandler_cache = 1 * Second \<and>
   (1000000006::int) \<le> 6 + 1 * Second \<and>
   (1000000000::int) \<le> 1000000006 \<and>
   serve example_enc example_parser 1000000006 1000000007 ''bob''
     (cache_Set SummaryHandler_cache 6 ''bob'' ''{"results":[{"subject":"Hi","count":1}]}''
        DefaultExpiration,
      bob_state\<lparr>dbh := bob_db\<lparr>statements := 2\<rparr>\<rparr>) =
     (\<lparr>status = 200, body = ''{"results":[{"subject":"Hi","count":1}]}''\<rparr>,
      cache_Set SummaryHandler_cache 6 ''bob'' ''{"results":[{"subject":"Hi","count":1}]}''
        DefaultExpiration,
      log_Printf (LogSummaryCacheHit ''bob'') (bob_state\<lparr>dbh := bob_db\<lparr>statements := 2\<rparr>\<rparr>)) \<and>
   fst (serve example_enc example_parser 1000000006 1000000007 ''bob''
     (DeleteExpired
        (cache_Set SummaryHandler_cache 6 ''bob'' ''{"results":[{"subject":"Hi","count":1}]}''
           DefaultExpiration) 1000000000,
      bob_state\<lparr>dbh := bob_db\<lparr>statements := 2\<rparr>\<rparr>)) =
     \<lparr>status = 200, body = ''{"results":[{"subject":"Hi","count":1}]}''\<rparr>\<close>
proof -
  let ?b = \<open>''{"results":[{"subject":"Hi","count":1}]}''\<close>
  let ?r = "\<lparr>status = 200, body = ?b\<rparr>"
  let ?c = "cache_Set SummaryHandler_cache 6 ''bob'' ?b DefaultExpiration"
  let ?st = "bob_state\<lparr>dbh := bob_db\<lparr>statements := 2\<rparr>\<rparr>"
  have m: "cache_Get SummaryHandler_cache 5 ''bob'' = None" by (rule cache_miss_fresh)
  have sv: "serve example_enc example_parser 5 6 ''bob'' (SummaryHandler_cache, bob_state) =
      (?r, ?c, ?st)"
    by (simp add: serve_bob example_enc_def)
  have ok: "status ?r = 200" by simp
  have de: "defaultExpiration SummaryHandler_cache = 1 * Second"
    by (simp add: SummaryHandler_cache_def cache_New_def)
  have le: "(1000000006::int) \<le> 6 + 1 * Second" by (simp add: Second_def)
  have tj: "(1000000000::int) \<le> 1000000006" by simp
  from summary_cache_hit [where c = SummaryHandler_cache and ?t1.0 = 5 and ?t1' = 6
      and lp = "''bob''" and enc = example_enc and p = example_parser and st = bob_state
      and r = ?r and c' = ?c and st' = ?st and ?t2.0 = 1000000006 and ?t2' = 1000000007
      and ?enc2.0 = example_enc and ?p2.0 = example_parser and ?st2.0 = ?st
      and tj = 1000000000]
    m sv ok de le tj
  show ?thesis by simp
qed

text \<open>
  Claim C2 does not hold of the code: when no row matches, the map \<open>res\<close> never gets the
  key \<^verbatim>\<open>results\<close> (only the first \<^verbatim>\<open>append\<close> in the loop over the rows creates it), so
  the body is the object without members, \<^verbatim>\<open>{}\<close>, not an envelope with an empty list. The
  status is 200 and the body is cached like any other; with one matching row the
  envelope is there.
\<close>

theorem summary_no_rows_body:
  \<open>serve enc p t t' lp (SummaryHandler_cache, empty_state) =
     (\<lparr>status = 200, body = ''{}''\<rparr>,
      cache_Set SummaryHandler_cache t' lp ''{}'' DefaultExpiration,
      empty_state\<lparr>dbh := empty_db\<lparr>statements := 1\<rparr>\<rparr>) \<and>
   cache_Get (cache_Set SummaryHandler_cache t' lp ''{}'' DefaultExpiration) t' lp = Some ''{}'' \<and>
   fst (serve enc example_parser t t' ''alice'' (SummaryHandler_cache, bob_state)) =
     \<lparr>status = 200, body = ''{}''\<rparr> \<and>
   fst (serve enc example_parser t t' ''bob'' (SummaryHandler_cache, bob_state)) =
     \<lparr>status = 200, body = ''{"results":[{"subject":'' @ enc ''Hi'' @ '',"count":1}]}''\<rparr> \<and>
   ''{}'' \<noteq> ''{"results":[]}''\<close>
proof (intro conjI)
  show \<open>serve enc p t t' lp (SummaryHandler_cache, empty_state) =
     (\<lparr>status = 200, body = ''{}''\<rparr>,
      cache_Set SummaryHandler_cache t' lp ''{}'' DefaultExpiration,
      empty_state\<lparr>dbh := empty_db\<lparr>statements := 1\<rparr>\<rparr>)\<close>
    by (simp add: serve_def cache_miss_fresh Query_summary_def next_fault_def empty_state_def
        empty_db_def summary_select_def rows_Err_def json_Marshal_def Write_def)
  show "cache_Get (cache_Set SummaryHandler_cache t' lp ''{}'' DefaultExpiration) t' lp = Some ''{}''"
    by (rule cache_Get_Set) (simp_all add: SummaryHandler_cache_def cache_New_def Second_def)
  show "fst (serve enc example_parser t t' ''alice'' (SummaryHandler_cache, bob_state)) =
     \<lparr>status = 200, body = ''{}''\<rparr>"
    by (simp add: serve_def cache_miss_fresh Query_summary_def next_fault_def bob_state_def
        bob_db_def summary_select_def example_parser_def rows_Err_def json_Marshal_def
        Write_def)
  show \<open>fst (serve enc example_parser t t' ''bob'' (SummaryHandler_cache, bob_state)) =
     \<lparr>status = 200, body = ''{"results":[{"subject":'' @ enc ''Hi'' @ '',"count":1}]}''\<rparr>\<close>
    by (simp add: serve_bob)
  show \<open>''{}'' \<noteq> ''{"results":[]}''\<close> by simp
qed

end
